theory Spec2Isabelle
  imports Main "HOL-Library.Sublist"
begin

section \<open>Python strings\<close>

text \<open>
  A Python \<open>str\<close> is a sequence of Unicode code points and \<open>len\<close> counts code points,
  so a string is modelled as a list of natural numbers. \<open>py\<close> turns a literal into
  such a list.
\<close>

type_synonym pystr = "nat list"

definition py :: "string \<Rightarrow> pystr" where
  "py s = map of_char s"

text \<open>The characters \<open>str.strip()\<close> and \<open>str.rstrip()\<close> remove when called without arguments.\<close>

definition is_space :: "nat \<Rightarrow> bool" where
  "is_space c =
     ((9 \<le> c \<and> c \<le> 13) \<or> (28 \<le> c \<and> c \<le> 32) \<or> c = 133 \<or> c = 160 \<or> c = 5760 \<or>
      (8192 \<le> c \<and> c \<le> 8202) \<or> c = 8232 \<or> c = 8233 \<or> c = 8239 \<or> c = 8287 \<or> c = 12288)"

definition py_lstrip :: "pystr \<Rightarrow> pystr" where
  "py_lstrip s = dropWhile is_space s"

definition py_rstrip :: "pystr \<Rightarrow> pystr" where
  "py_rstrip s = rev (dropWhile is_space (rev s))"

definition py_strip :: "pystr \<Rightarrow> pystr" where
  "py_strip s = py_rstrip (py_lstrip s)"

section \<open>\<open>fix_utm_source\<close>\<close>

text \<open>
  \<^verbatim>\<open>re.sub(r'(utm_source=)twitter', r'\1bluesky', url)\<close>: the pattern is the literal
  group \<open>utm_source=\<close> followed by the literal \<open>twitter\<close>; the replacement is the group
  followed by \<open>bluesky\<close>. \<open>re.sub\<close> scans from the left and replaces every
  non-overlapping match.
\<close>

definition utm_twitter :: pystr where
  "utm_twitter = py ''utm_source='' @ py ''twitter''"

definition utm_bluesky :: pystr where
  "utm_bluesky = py ''utm_source='' @ py ''bluesky''"

function utm_sub :: "pystr \<Rightarrow> pystr" where
  "utm_sub [] = []"
| "utm_sub (c # cs) =
     (if prefix utm_twitter (c # cs)
      then utm_bluesky @ utm_sub (drop (length utm_twitter) (c # cs))
      else c # utm_sub cs)"
  by pat_completeness auto
termination
  by (relation "measure length") (auto simp: utm_twitter_def py_def)

text \<open>\<open>if not url: return url\<close> passes \<open>None\<close> and the empty string through.\<close>

definition fix_utm_source :: "pystr option \<Rightarrow> pystr option" where
  "fix_utm_source url =
     (case url of
        None \<Rightarrow> None
      | Some u \<Rightarrow> if u = [] then Some u else Some (utm_sub u))"

text \<open>No part of the string, read from any of its positions, agrees with the replacement.\<close>

fun clear_of_bluesky :: "pystr \<Rightarrow> bool" where
  "clear_of_bluesky [] = True"
| "clear_of_bluesky (x # xs) =
     (\<not> prefix (x # xs) utm_bluesky \<and> \<not> prefix utm_bluesky (x # xs) \<and> clear_of_bluesky xs)"

section \<open>Text sanitising\<close>

text \<open>
  \<^verbatim>\<open>SHORT_URL_PATTERN = re.compile(r'https://t.co/[a-zA-Z0-9]+')\<close>. The dot is not
  escaped, so it stands for any character but a newline (code point 10); the class
  \<open>[a-zA-Z0-9]\<close> is the ASCII letters and digits, and \<open>+\<close> is greedy. The pattern has
  no alternative, so at a given position there is at most one match, the longest one.
  \<open>SHORT_URL_PATTERN_match s\<close> is the length of the match at the start of \<open>s\<close>.
\<close>

definition alnum :: "nat \<Rightarrow> bool" where
  "alnum c = ((97 \<le> c \<and> c \<le> 122) \<or> (65 \<le> c \<and> c \<le> 90) \<or> (48 \<le> c \<and> c \<le> 57))"

definition SHORT_URL_PATTERN_match :: "pystr \<Rightarrow> nat option" where
  "SHORT_URL_PATTERN_match s =
     (if prefix (py ''https://t'') s \<and> 9 < length s \<and> s ! 9 \<noteq> 10 \<and>
         prefix (py ''co/'') (drop 10 s) \<and> takeWhile alnum (drop 13 s) \<noteq> []
      then Some (13 + length (takeWhile alnum (drop 13 s)))
      else None)"

text \<open>
  \<^verbatim>\<open>SHORT_URL_PATTERN.sub('', text)\<close>: scan from the left; where the pattern matches,
  drop the match and go on after it; elsewhere keep the character.
\<close>

function SHORT_URL_PATTERN_sub :: "pystr \<Rightarrow> pystr" where
  "SHORT_URL_PATTERN_sub [] = []"
| "SHORT_URL_PATTERN_sub (c # cs) =
     (case SHORT_URL_PATTERN_match (c # cs) of
        Some n \<Rightarrow> SHORT_URL_PATTERN_sub (drop n (c # cs))
      | None \<Rightarrow> c # SHORT_URL_PATTERN_sub cs)"
  by pat_completeness auto
termination
  by (relation "measure length") (auto simp: SHORT_URL_PATTERN_match_def split: if_splits)

text \<open>A text has a short link when the pattern matches at one of its positions.\<close>

definition has_short_link :: "pystr \<Rightarrow> bool" where
  "has_short_link s = (\<exists>i<length s. SHORT_URL_PATTERN_match (drop i s) \<noteq> None)"

definition BLUESKY_LIMIT :: nat where
  "BLUESKY_LIMIT = 300"

text \<open>\<^verbatim>\<open>clean_text = SHORT_URL_PATTERN.sub('', latest_tweet.text).strip()\<close>\<close>

definition clean_text :: "pystr \<Rightarrow> pystr" where
  "clean_text t = py_strip (SHORT_URL_PATTERN_sub t)"

text \<open>
  \<^verbatim>\<open>if len(clean_text) > BLUESKY_LIMIT:
      clean_text = clean_text[:BLUESKY_LIMIT - 3].rstrip() + "..."\<close>
\<close>

definition trim_text :: "pystr \<Rightarrow> pystr" where
  "trim_text c =
     (if length c > BLUESKY_LIMIT
      then py_rstrip (take (BLUESKY_LIMIT - 3) c) @ py ''...''
      else c)"

definition sanitize :: "pystr \<Rightarrow> pystr" where
  "sanitize t = trim_text (clean_text t)"

text \<open>Two long texts without links: 296 letters, a space and 10 letters; and 310 letters.\<close>

definition long_text :: pystr where
  "long_text = replicate 296 97 @ [32] @ replicate 10 98"

definition wide_text :: pystr where
  "wide_text = replicate 310 97"

section \<open>The outside world\<close>

text \<open>
  Every call that leaves the program either returns or raises an instance of
  \<open>Exception\<close>; the outcome is a value of a sum type, \<open>Inl\<close> the exception. What the
  program prints and the calls it makes to the destination are recorded as events.
\<close>

datatype exn = Exn pystr

type_synonym bytes = "nat list"

text \<open>
  The response of \<open>session.get\<close>: its status, what \<open>response.content.read(n)\<close> gives
  and what \<open>response.read()\<close> gives.
\<close>

record response =
  resp_status :: nat
  resp_content_read :: "nat \<Rightarrow> exn + bytes"
  resp_read :: "exn + bytes"

text \<open>
  The tree \<open>lxml.html.fromstring\<close> builds, as far as the queries of \<open>get_metadata\<close>
  look at it: the text of every \<open>title\<close> element and the attributes of every
  \<open>meta\<close> element, both in document order.
\<close>

record meta_element =
  attr_property :: "pystr option"
  attr_name :: "pystr option"
  attr_content :: "pystr option"

record html_tree =
  title_elements :: "pystr option list"
  meta_elements :: "meta_element list"

record metadata =
  md_title :: pystr
  md_description :: pystr
  md_thumbnail :: "pystr option"

datatype blob_ref = BlobRef nat

record external_embed =
  ext_title :: pystr
  ext_description :: pystr
  ext_uri :: pystr
  ext_thumb :: blob_ref

datatype log_line =
    MetadataWarning pystr exn
  | ImageWarning pystr exn
  | LoggedInTwitter
  | LoggedInBluesky
  | LoginFailed exn
  | UserNotFound
  | Monitoring pystr
  | NewTweet pystr
  | TooLong nat
  | Posted
  | PostError exn
  | CriticalLoopError exn

datatype event =
    Print log_line
  | Sleep nat
  | UploadBlob bytes
  | SendPost pystr "external_embed option"

record tweet =
  tw_id :: pystr
  tw_text :: pystr
  tw_urls :: "(pystr \<rightharpoonup> pystr) list"

text \<open>
  What the outside world answers during one pass of the loop: the latest tweets,
  \<open>session.get(url, timeout)\<close>, the HTML parser, \<open>upload_blob\<close> and \<open>send_post\<close>.
\<close>

record cycle_env =
  get_user_tweets :: "exn + tweet list"
  session_get :: "pystr \<Rightarrow> nat \<Rightarrow> exn + response"
  html_fromstring :: "bytes \<Rightarrow> exn + html_tree"
  upload_blob :: "bytes \<Rightarrow> exn + blob_ref"
  send_post :: "pystr \<Rightarrow> external_embed option \<Rightarrow> exn + unit"

text \<open>What the outside world answers while a relay starts.\<close>

record start_env =
  cookies_exist :: bool
  load_cookies :: "exn + unit"
  bluesky_login :: "exn + unit"
  get_user_by_screen_name :: "exn + pystr option"

section \<open>\<open>get_metadata\<close> and \<open>fetch_image_to_memory\<close>\<close>

text \<open>
  \<open>tree.findtext('.//title')\<close>: \<open>None\<close> without a \<open>title\<close> element, else the text
  of the first one, the empty string when that element has no text.
\<close>

definition findtext_title :: "html_tree \<Rightarrow> pystr option" where
  "findtext_title tree =
     (case title_elements tree of
        [] \<Rightarrow> None
      | t # _ \<Rightarrow> Some (case t of None \<Rightarrow> [] | Some x \<Rightarrow> x))"

text \<open>
  \<open>tree.xpath('//meta[@a="v"]/@content')\<close>: the \<open>content\<close> attributes of the
  \<open>meta\<close> elements whose attribute \<open>a\<close> is \<open>v\<close>.
\<close>

definition xpath_meta_content ::
  "(meta_element \<Rightarrow> pystr option) \<Rightarrow> pystr \<Rightarrow> html_tree \<Rightarrow> pystr list" where
  "xpath_meta_content a v tree =
     List.map_filter attr_content (filter (\<lambda>m. a m = Some v) (meta_elements tree))"

definition extract_metadata :: "html_tree \<Rightarrow> metadata" where
  "extract_metadata tree =
     \<lparr>md_title =
        (case findtext_title tree of
           None \<Rightarrow> py ''No title''
         | Some t \<Rightarrow> if t = [] then py ''No title'' else t),
      md_description =
        (case xpath_meta_content attr_property (py ''og:description'') tree of
           d # _ \<Rightarrow> d
         | [] \<Rightarrow>
            (case xpath_meta_content attr_name (py ''description'') tree of
               d # _ \<Rightarrow> d
             | [] \<Rightarrow> py ''No description'')),
      md_thumbnail =
        (case xpath_meta_content attr_property (py ''og:image'') tree of
           i # _ \<Rightarrow> Some i
         | [] \<Rightarrow> None)\<rparr>"

definition get_metadata ::
  "(pystr \<Rightarrow> nat \<Rightarrow> exn + response) \<Rightarrow> (bytes \<Rightarrow> exn + html_tree) \<Rightarrow> pystr
     \<Rightarrow> metadata option \<times> event list" where
  "get_metadata session parse url =
     (case session url 10 of
        Inl e \<Rightarrow> (None, [Print (MetadataWarning url e)])
      | Inr response \<Rightarrow>
          if resp_status response \<noteq> 200 then (None, [])
          else
            (case resp_content_read response (1024 * 10) of
               Inl e \<Rightarrow> (None, [Print (MetadataWarning url e)])
             | Inr html_chunk \<Rightarrow>
                 (case parse html_chunk of
                    Inl e \<Rightarrow> (None, [Print (MetadataWarning url e)])
                  | Inr tree \<Rightarrow> (Some (extract_metadata tree), []))))"

definition fetch_image_to_memory ::
  "(pystr \<Rightarrow> nat \<Rightarrow> exn + response) \<Rightarrow> pystr \<Rightarrow> bytes option \<times> event list" where
  "fetch_image_to_memory session url =
     (case session url 15 of
        Inl e \<Rightarrow> (None, [Print (ImageWarning url e)])
      | Inr response \<Rightarrow>
          if resp_status response = 200
          then (case resp_read response of
                  Inl e \<Rightarrow> (None, [Print (ImageWarning url e)])
                | Inr data \<Rightarrow> (Some data, []))
          else (None, []))"

section \<open>\<open>monitor_tweets\<close>\<close>

text \<open>
  Lines 113 to 134: the embed of the new tweet. \<open>upload_blob\<close> is called outside any
  handler of its own, so its exception leaves the block.
\<close>

definition build_embed ::
  "cycle_env \<Rightarrow> pystr option \<Rightarrow> (exn + external_embed option) \<times> event list" where
  "build_embed env full_url =
     (case full_url of
        None \<Rightarrow> (Inr None, [])
      | Some url \<Rightarrow>
          if url = [] then (Inr None, [])
          else
            (case get_metadata (session_get env) (html_fromstring env) url of
               (None, ev) \<Rightarrow> (Inr None, ev)
             | (Some md, ev) \<Rightarrow>
                 (case md_thumbnail md of
                    None \<Rightarrow> (Inr None, ev)
                  | Some thumb \<Rightarrow>
                      if thumb = [] then (Inr None, ev)
                      else
                        (case fetch_image_to_memory (session_get env) thumb of
                           (None, ev') \<Rightarrow> (Inr None, ev @ ev')
                         | (Some img, ev') \<Rightarrow>
                             (case upload_blob env img of
                                Inl e \<Rightarrow> (Inl e, ev @ ev' @ [UploadBlob img])
                              | Inr blob \<Rightarrow>
                                  (Inr (Some \<lparr>ext_title = md_title md,
                                              ext_description = md_description md,
                                              ext_uri = url,
                                              ext_thumb = blob\<rparr>),
                                   ev @ ev' @ [UploadBlob img]))))))"

text \<open>\<open>latest_tweet.urls[0].get('expanded_url') if latest_tweet.urls else None\<close>\<close>

definition first_url :: "tweet \<Rightarrow> pystr option" where
  "first_url t = (case tw_urls t of [] \<Rightarrow> None | u # _ \<Rightarrow> u (py ''expanded_url''))"

text \<open>
  The body of the \<open>try\<close> of the loop (lines 99 to 152). It leaves by \<open>continue\<close>, by
  reaching its end, or by an exception; the second component is \<open>previous_tweet_id\<close>
  at that moment.
\<close>

datatype flow = Continue | Fallthrough

definition try_block ::
  "cycle_env \<Rightarrow> pystr option \<Rightarrow> (exn + flow) \<times> pystr option \<times> event list" where
  "try_block env previous_tweet_id =
     (case get_user_tweets env of
        Inl e \<Rightarrow> (Inl e, previous_tweet_id, [])
      | Inr tweets \<Rightarrow>
          (case tweets of
             [] \<Rightarrow> (Inr Continue, previous_tweet_id, [Sleep 60])
           | latest_tweet # _ \<Rightarrow>
               if previous_tweet_id = Some (tw_id latest_tweet)
               then (Inr Continue, previous_tweet_id, [Sleep 60])
               else
                 (case build_embed env (fix_utm_source (first_url latest_tweet)) of
                    (Inl e, ev) \<Rightarrow>
                      (Inl e, previous_tweet_id,
                       Print (NewTweet (take 50 (tw_text latest_tweet))) # ev)
                  | (Inr emb, ev) \<Rightarrow>
                      (case send_post env (trim_text (clean_text (tw_text latest_tweet))) emb of
                         Inr _ \<Rightarrow>
                           (Inr Fallthrough, Some (tw_id latest_tweet),
                            Print (NewTweet (take 50 (tw_text latest_tweet))) # ev @
                            (if length (clean_text (tw_text latest_tweet)) > BLUESKY_LIMIT
                             then [Print (TooLong (length (clean_text (tw_text latest_tweet))))]
                             else []) @
                            [SendPost (trim_text (clean_text (tw_text latest_tweet))) emb,
                             Print Posted])
                       | Inl e \<Rightarrow>
                           (Inr Fallthrough, previous_tweet_id,
                            Print (NewTweet (take 50 (tw_text latest_tweet))) # ev @
                            (if length (clean_text (tw_text latest_tweet)) > BLUESKY_LIMIT
                             then [Print (TooLong (length (clean_text (tw_text latest_tweet))))]
                             else []) @
                            [SendPost (trim_text (clean_text (tw_text latest_tweet))) emb,
                             Print (PostError e)])))))"

text \<open>
  One pass of \<open>while True\<close>: the \<open>try\<close>, its handler \<open>except Exception\<close>, and the
  \<open>sleep\<close> of line 157, which a \<open>continue\<close> skips.
\<close>

definition loop_iteration :: "cycle_env \<Rightarrow> pystr option \<Rightarrow> pystr option \<times> event list" where
  "loop_iteration env previous_tweet_id =
     (case try_block env previous_tweet_id of
        (Inl e, st, ev) \<Rightarrow> (st, ev @ [Print (CriticalLoopError e), Sleep 60])
      | (Inr Continue, st, ev) \<Rightarrow> (st, ev)
      | (Inr Fallthrough, st, ev) \<Rightarrow> (st, ev @ [Sleep 60]))"

text \<open>
  The loop has no exit. Its run is followed over a finite list of passes, one
  environment each; what is returned is the state and the events after the last of them.
\<close>

fun run_loop :: "cycle_env list \<Rightarrow> pystr option \<Rightarrow> pystr option \<times> event list" where
  "run_loop [] st = (st, [])"
| "run_loop (env # envs) st =
     (case loop_iteration env st of
        (st', ev) \<Rightarrow> (case run_loop envs st' of (st'', ev') \<Rightarrow> (st'', ev @ ev')))"

text \<open>Lines 80 to 88, the \<open>try\<close> around the two logins.\<close>

definition login :: "start_env \<Rightarrow> (exn + unit) \<times> event list" where
  "login start =
     (if cookies_exist start
      then (case load_cookies start of
              Inl e \<Rightarrow> (Inl e, [])
            | Inr _ \<Rightarrow>
                (case bluesky_login start of
                   Inl e \<Rightarrow> (Inl e, [Print LoggedInTwitter])
                 | Inr _ \<Rightarrow> (Inr (), [Print LoggedInTwitter, Print LoggedInBluesky])))
      else (case bluesky_login start of
              Inl e \<Rightarrow> (Inl e, [])
            | Inr _ \<Rightarrow> (Inr (), [Print LoggedInBluesky])))"

text \<open>
  A relay task has returned, has raised, or is still in its loop after the passes
  it was followed for. \<open>get_user_by_screen_name\<close> (line 90) is called outside every
  \<open>try\<close>.
\<close>

datatype task_result =
    Returned "event list"
  | Raised exn "event list"
  | Looping "pystr option" "event list"

definition monitor_tweets :: "start_env \<Rightarrow> cycle_env list \<Rightarrow> task_result" where
  "monitor_tweets start envs =
     (case login start of
        (Inl e, ev) \<Rightarrow> Returned (ev @ [Print (LoginFailed e)])
      | (Inr _, ev) \<Rightarrow>
          (case get_user_by_screen_name start of
             Inl e \<Rightarrow> Raised e ev
           | Inr None \<Rightarrow> Returned (ev @ [Print UserNotFound])
           | Inr (Some user_id) \<Rightarrow>
               (case run_loop envs None of
                  (st, ev') \<Rightarrow> Looping st (ev @ Print (Monitoring user_id) # ev'))))"

section \<open>\<open>main\<close>\<close>

text \<open>
  \<open>asyncio.gather(*tasks)\<close> without \<open>return_exceptions\<close>: an exception raised by one
  task is raised by \<open>gather\<close>, hence by \<open>main\<close> and by \<open>asyncio.run\<close>, which cancels the
  tasks still running; the handler at the top catches \<open>KeyboardInterrupt\<close> only.
  So the process ends with the exception as soon as one task raises; otherwise every
  task goes its own way.
\<close>

fun gather :: "task_result list \<Rightarrow> exn + task_result list" where
  "gather [] = Inr []"
| "gather (Raised e ev # rs) = Inl e"
| "gather (r # rs) = (case gather rs of Inl e \<Rightarrow> Inl e | Inr rs' \<Rightarrow> Inr (r # rs'))"

definition main :: "(start_env \<times> cycle_env list) list \<Rightarrow> exn + task_result list" where
  "main accounts = gather (map (\<lambda>(start, envs). monitor_tweets start envs) accounts)"

section \<open>Observations and a scenario\<close>

text \<open>The calls of \<open>send_post\<close> among the events, and how many of them were logged as posted.\<close>

definition publish_calls :: "event list \<Rightarrow> (pystr \<times> external_embed option) list" where
  "publish_calls ev =
     List.map_filter (\<lambda>e. case e of SendPost t m \<Rightarrow> Some (t, m) | _ \<Rightarrow> None) ev"

definition posted_count :: "event list \<Rightarrow> nat" where
  "posted_count ev = length (filter (\<lambda>e. e = Print Posted) ev)"

text \<open>
  For the URL of a tweet: the metadata and the image, when the metadata fetch
  succeeded, the metadata holds a thumbnail URL and the image fetch succeeded.
\<close>

definition fetched_thumbnail :: "cycle_env \<Rightarrow> pystr \<Rightarrow> (metadata \<times> bytes) option" where
  "fetched_thumbnail env url =
     (case fst (get_metadata (session_get env) (html_fromstring env) url) of
        None \<Rightarrow> None
      | Some md \<Rightarrow>
          (case md_thumbnail md of
             None \<Rightarrow> None
           | Some thumb \<Rightarrow>
               if thumb = [] then None
               else
                 (case fst (fetch_image_to_memory (session_get env) thumb) of
                    None \<Rightarrow> None
                  | Some img \<Rightarrow> Some (md, img))))"

definition thumbnail_obtained :: "cycle_env \<Rightarrow> pystr \<Rightarrow> bool" where
  "thumbnail_obtained env url = (fetched_thumbnail env url \<noteq> None)"

text \<open>A pass of the loop in which the latest tweet has the identifier \<open>p\<close>, if there is one.\<close>

definition fetches_only :: "pystr \<Rightarrow> cycle_env \<Rightarrow> bool" where
  "fetches_only p env =
     (case get_user_tweets env of
        Inl e \<Rightarrow> True
      | Inr [] \<Rightarrow> True
      | Inr (t # _) \<Rightarrow> tw_id t = p)"

text \<open>
  The scenario of the specification: a tweet with one short link, whose page has a
  title, a description and an image; every call succeeds.
\<close>

definition scenario_tree :: html_tree where
  "scenario_tree =
     \<lparr>title_elements = [Some (py ''Ex'')],
      meta_elements =
        [\<lparr>attr_property = None, attr_name = Some (py ''description''), attr_content = Some (py ''plain'')\<rparr>,
         \<lparr>attr_property = Some (py ''og:description''), attr_name = None, attr_content = Some (py ''D'')\<rparr>,
         \<lparr>attr_property = Some (py ''og:image''), attr_name = None,
          attr_content = Some (py ''http://img/x.png'')\<rparr>]\<rparr>"

definition ok_response :: "bytes \<Rightarrow> response" where
  "ok_response body =
     \<lparr>resp_status = 200, resp_content_read = (\<lambda>n. Inr (take n body)), resp_read = Inr body\<rparr>"

definition scenario_session :: "pystr \<Rightarrow> nat \<Rightarrow> exn + response" where
  "scenario_session url timeout =
     (if url = py ''https://example.com/a?utm_source=bluesky'' then Inr (ok_response [60, 104])
      else if url = py ''http://img/x.png'' then Inr (ok_response [137, 80])
      else Inl (Exn (py ''unreachable'')))"

definition scenario_tweet :: tweet where
  "scenario_tweet =
     \<lparr>tw_id = py ''1001'',
      tw_text = py ''Check this out https://t.co/abc123'',
      tw_urls = [[py ''expanded_url'' \<mapsto> py ''https://example.com/a?utm_source=twitter'']]\<rparr>"

definition scenario_env :: cycle_env where
  "scenario_env =
     \<lparr>get_user_tweets = Inr [scenario_tweet],
      session_get = scenario_session,
      html_fromstring = (\<lambda>chunk. Inr scenario_tree),
      upload_blob = (\<lambda>data. Inr (BlobRef 1)),
      send_post = (\<lambda>text emb. Inr ())\<rparr>"

text \<open>A server that answers every request with status 404.\<close>

definition not_found_session :: "pystr \<Rightarrow> nat \<Rightarrow> exn + response" where
  "not_found_session url timeout =
     Inr \<lparr>resp_status = 404, resp_content_read = (\<lambda>n. Inr []), resp_read = Inr []\<rparr>"

text \<open>The scenario with a page that is not found, with a failing upload, with a failing post.\<close>

definition no_page_env :: cycle_env where
  "no_page_env = scenario_env\<lparr>session_get := not_found_session\<rparr>"

definition upload_fails_env :: cycle_env where
  "upload_fails_env = scenario_env\<lparr>upload_blob := (\<lambda>data. Inl (Exn (py ''upload failed'')))\<rparr>"

definition post_fails_env :: cycle_env where
  "post_fails_env = scenario_env\<lparr>send_post := (\<lambda>text emb. Inl (Exn (py ''post failed'')))\<rparr>"

text \<open>
  A start in which everything succeeds, one in which the Bluesky login raises, one
  in which the Twitter user is not found, and one in which the lookup of the user raises.
\<close>

definition ok_start :: start_env where
  "ok_start =
     \<lparr>cookies_exist = True, load_cookies = Inr (), bluesky_login = Inr (),
      get_user_by_screen_name = Inr (Some (py ''42''))\<rparr>"

definition login_fails_start :: start_env where
  "login_fails_start = ok_start\<lparr>bluesky_login := Inl (Exn (py ''Invalid identifier or password''))\<rparr>"

definition not_found_start :: start_env where
  "not_found_start = ok_start\<lparr>get_user_by_screen_name := Inr None\<rparr>"

definition lookup_raises_start :: start_env where
  "lookup_raises_start = ok_start\<lparr>get_user_by_screen_name := Inl (Exn (py ''The user does not exist.''))\<rparr>"

text \<open>A newer tweet without links, and the scenario in which it is the latest.\<close>

definition other_tweet :: tweet where
  "other_tweet = \<lparr>tw_id = py ''1002'', tw_text = py ''Second post'', tw_urls = []\<rparr>"

definition other_env :: cycle_env where
  "other_env = scenario_env\<lparr>get_user_tweets := Inr [other_tweet, scenario_tweet]\<rparr>"

section \<open>Properties of \<open>fix_utm_source\<close>\<close>

lemma utm_twitter_val: "utm_twitter = [117,116,109,95,115,111,117,114,99,101,61,116,119,105,116,116,101,114]"
  by (simp add: utm_twitter_def py_def)
lemma utm_bluesky_val: "utm_bluesky = [117,116,109,95,115,111,117,114,99,101,61,98,108,117,101,115,107,121]"
  by (simp add: utm_bluesky_def py_def)

lemma utm_sub_bluesky: "utm_sub (utm_bluesky @ t) = utm_bluesky @ utm_sub t"
  by (simp add: utm_bluesky_val utm_twitter_val)

lemma utm_sub_length: "length (utm_sub s) = length s"
  by (induction s rule: utm_sub.induct) (auto simp: utm_twitter_val utm_bluesky_val prefix_def)

lemma utm_sub_prefix_back:
  "prefix X (utm_sub s) \<Longrightarrow> clear_of_bluesky X \<Longrightarrow> prefix X s"
proof (induction X arbitrary: s)
  case Nil
  then show ?case by simp
next
  case (Cons x xs)
  show ?case
  proof (cases s)
    case Nil
    with Cons.prems show ?thesis by simp
  next
    case (Cons c cs)
    show ?thesis
    proof (cases "prefix utm_twitter (c # cs)")
      case True
      with Cons.prems(1) Cons have "prefix (x # xs) (utm_bluesky @ utm_sub (drop (length utm_twitter) (c # cs)))"
        by simp
      then have "prefix (x # xs) utm_bluesky \<or> prefix utm_bluesky (x # xs)"
        by (auto simp: prefix_append)
      with Cons.prems(2) show ?thesis by simp
    next
      case False
      with Cons.prems(1) Cons have "x = c" "prefix xs (utm_sub cs)" by simp_all
      moreover from Cons.prems(2) have "clear_of_bluesky xs" by simp
      ultimately show ?thesis using Cons.IH Cons by simp
    qed
  qed
qed

lemma utm_sub_no_new:
  assumes "\<not> prefix utm_twitter (c # cs)"
  shows "\<not> prefix utm_twitter (c # utm_sub cs)"
proof
  assume p: "prefix utm_twitter (c # utm_sub cs)"
  define X where "X = tl utm_twitter"
  have tw: "utm_twitter = 117 # X" by (simp add: X_def utm_twitter_val)
  have cl: "clear_of_bluesky X" by (simp add: X_def utm_twitter_val utm_bluesky_val)
  from p have c: "c = 117" and "prefix X (utm_sub cs)" unfolding tw by simp_all
  then have "prefix X cs" using cl by (simp add: utm_sub_prefix_back)
  with c have "prefix utm_twitter (c # cs)" unfolding tw by simp
  with assms show False by simp
qed

lemma utm_sub_idem: "utm_sub (utm_sub s) = utm_sub s"
proof (induction s rule: utm_sub.induct)
  case 1
  then show ?case by simp
next
  case (2 c cs)
  show ?case
  proof (cases "prefix utm_twitter (c # cs)")
    case True
    with 2 show ?thesis by (simp add: utm_sub_bluesky del: utm_sub.simps(2)) (simp add: utm_sub_bluesky)
  next
    case False
    with 2 utm_sub_no_new[OF False] show ?thesis by simp
  qed
qed

lemma utm_sub_absent: "\<not> sublist utm_twitter s \<Longrightarrow> utm_sub s = s"
proof (induction s rule: utm_sub.induct)
  case 1
  then show ?case by simp
next
  case (2 c cs)
  then have np: "\<not> prefix utm_twitter (c # cs)" using prefix_imp_sublist by blast
  from 2 have "\<not> sublist utm_twitter cs" by (meson sublist_Cons_right)
  with 2 np show ?case by simp
qed

lemma prefix_shift:
  assumes "prefix P (a @ P @ b)" and "a \<noteq> []"
  shows "prefix P (a @ butlast P)"
proof (cases "P = []")
  case True
  then show ?thesis by simp
next
  case False
  with assms(2) have lt: "length P - length a < length P" by (cases a) auto
  from assms(1) have "P = take (length P) (a @ P @ b)"
    by (metis append_eq_conv_conj prefix_def)
  also have "\<dots> = take (length P) a @ take (length P - length a) P"
    using lt by simp
  also have "\<dots> = take (length P) a @ take (length P - length a) (butlast P)"
    using lt by (simp add: take_butlast)
  also have "\<dots> = take (length P) (a @ butlast P)" by simp
  finally have "P = take (length P) (a @ butlast P)" .
  then show ?thesis by (metis take_is_prefix)
qed

lemma utm_sub_first:
  "\<not> sublist utm_twitter (a @ butlast utm_twitter) \<Longrightarrow>
     utm_sub (a @ utm_twitter @ b) = a @ utm_bluesky @ utm_sub b"
proof (induction a)
  case Nil
  have "utm_sub (utm_twitter @ b) = utm_bluesky @ utm_sub b"
    by (simp add: utm_twitter_val)
  then show ?case by simp
next
  case (Cons c a)
  have np: "\<not> prefix utm_twitter ((c # a) @ utm_twitter @ b)"
  proof
    assume "prefix utm_twitter ((c # a) @ utm_twitter @ b)"
    then have "prefix utm_twitter ((c # a) @ butlast utm_twitter)"
      by (rule prefix_shift) simp
    then show False using Cons.prems prefix_imp_sublist by blast
  qed
  from Cons.prems have "\<not> sublist utm_twitter (a @ butlast utm_twitter)"
    by (metis append_Cons sublist_Cons_right)
  with Cons.IH np show ?case by simp
qed


section \<open>Properties of the text sanitiser\<close>

lemma py_rstrip_length: "length (py_rstrip s) \<le> length s"
  by (simp add: py_rstrip_def) (metis length_dropWhile_le length_rev)

lemma py_rstrip_full: "length (py_rstrip s) = length s \<longleftrightarrow> (s = [] \<or> \<not> is_space (last s))"
proof (cases "rev s")
  case Nil
  then show ?thesis by (simp add: py_rstrip_def)
next
  case (Cons x xs)
  then have s: "s = rev xs @ [x]" by (metis rev.simps(2) rev_rev_ident)
  have "length (dropWhile is_space xs) \<le> length xs" by (rule length_dropWhile_le)
  then show ?thesis by (auto simp: py_rstrip_def s)
qed

lemma py_rstrip_prefix: "prefix (py_rstrip s) s"
proof -
  have "suffix (dropWhile is_space (rev s)) (rev s)" by (rule suffix_dropWhile)
  then show ?thesis by (simp add: py_rstrip_def suffix_to_prefix)
qed

lemma py_rstrip_nonempty:
  assumes "x \<in> set s" and "\<not> is_space x"
  shows "py_rstrip s \<noteq> []"
proof -
  from assms have "\<not> (\<forall>y\<in>set (rev s). is_space y)" by auto
  then show ?thesis by (simp add: py_rstrip_def dropWhile_eq_Nil_conv)
qed

lemma py_strip_hd:
  assumes ne: "py_strip s \<noteq> []"
  shows "\<not> is_space (hd (py_strip s))"
proof -
  define l where "l = dropWhile is_space s"
  have st: "py_strip s = py_rstrip l" by (simp add: l_def py_strip_def py_lstrip_def)
  have "l = [] \<Longrightarrow> py_rstrip l = []" by (simp add: py_rstrip_def)
  with ne st have lne: "l \<noteq> []" by auto
  then have h: "\<not> is_space (hd l)" unfolding l_def by (rule hd_dropWhile)
  have "prefix (py_rstrip l) l" by (rule py_rstrip_prefix)
  then obtain r where eq: "l = py_rstrip l @ r" by (auto simp: prefix_def)
  from eq have "hd l = hd (py_rstrip l @ r)" by (rule arg_cong)
  moreover from ne st have "hd (py_rstrip l @ r) = hd (py_rstrip l)" by simp
  ultimately have "hd l = hd (py_rstrip l)" by (rule trans)
  with h st show ?thesis by simp
qed


lemma trim_text_length: "length (trim_text c) \<le> 300"
proof (cases "300 < length c")
  case True
  have "length (py_rstrip (take 297 c)) \<le> length (take 297 c)" by (rule py_rstrip_length)
  with True show ?thesis by (simp add: trim_text_def BLUESKY_LIMIT_def py_def)
next
  case False
  then show ?thesis by (simp add: trim_text_def BLUESKY_LIMIT_def)
qed

lemma trim_text_long:
  assumes "300 < length c"
  shows "trim_text c = py_rstrip (take 297 c) @ py ''...''"
  using assms by (simp add: trim_text_def BLUESKY_LIMIT_def)

lemma trim_text_exact:
  assumes "300 < length c"
  shows "length (trim_text c) = 300 \<longleftrightarrow> \<not> is_space (c ! 296)"
proof -
  from assms have l: "length (take 297 c) = 297" by simp
  from l have ne: "take 297 c \<noteq> []" by auto
  then have "last (take 297 c) = take 297 c ! (length (take 297 c) - 1)"
    by (rule last_conv_nth)
  then have la: "last (take 297 c) = c ! 296" by (simp only: l) simp
  have "length (trim_text c) = length (py_rstrip (take 297 c)) + 3"
    using assms by (simp add: trim_text_long py_def)
  then have "length (trim_text c) = 300 \<longleftrightarrow> length (py_rstrip (take 297 c)) = length (take 297 c)"
    using l by simp
  also have "\<dots> \<longleftrightarrow> \<not> is_space (last (take 297 c))"
    using ne py_rstrip_full[of "take 297 c"] by blast
  finally show ?thesis using la by simp
qed

lemma trim_text_min:
  assumes "300 < length c" and "\<not> is_space (hd c)"
  shows "4 \<le> length (trim_text c)"
proof -
  from assms(1) have "c \<noteq> []" by auto
  then have "hd c \<in> set (take 297 c)" by (cases c) simp_all
  then have "py_rstrip (take 297 c) \<noteq> []" using assms(2) by (rule py_rstrip_nonempty)
  then have "1 \<le> length (py_rstrip (take 297 c))" by (simp add: Suc_le_eq)
  then show ?thesis using assms(1) by (simp add: trim_text_long py_def)
qed

text \<open>
  Claim C1, as the code has it. The sanitised text never exceeds 300 characters. When
  the text, after the short links are removed and it is stripped, has at most 300
  characters, it is published as it is. When it is longer, the result is its first 297
  characters, right-trimmed, followed by \<open>...\<close>; it ends in \<open>...\<close>, has at least 4
  characters, and has exactly 300 characters if and only if the 297th character of the
  stripped text is not whitespace (otherwise the right-trim makes it shorter).
\<close>

theorem sanitize_truncation:
  "length (sanitize T) \<le> 300 \<and>
   (length (clean_text T) \<le> 300 \<longrightarrow> sanitize T = clean_text T) \<and>
   (300 < length (clean_text T) \<longrightarrow>
      sanitize T = py_rstrip (take 297 (clean_text T)) @ py ''...'' \<and>
      suffix (py ''...'') (sanitize T) \<and>
      4 \<le> length (sanitize T) \<and>
      (length (sanitize T) = 300 \<longleftrightarrow> \<not> is_space (clean_text T ! 296)))"
proof (intro conjI impI)
  show "length (sanitize T) \<le> 300" by (simp add: sanitize_def trim_text_length)
next
  assume "length (clean_text T) \<le> 300"
  then show "sanitize T = clean_text T" by (simp add: sanitize_def trim_text_def BLUESKY_LIMIT_def)
next
  assume a: "300 < length (clean_text T)"
  then show e: "sanitize T = py_rstrip (take 297 (clean_text T)) @ py ''...''"
    by (simp add: sanitize_def trim_text_long)
  show "suffix (py ''...'') (sanitize T)" unfolding e by (rule suffixI) simp
  from a have "clean_text T \<noteq> []" by auto
  then have "\<not> is_space (hd (clean_text T))" unfolding clean_text_def by (rule py_strip_hd)
  with a show "4 \<le> length (sanitize T)" by (simp add: sanitize_def trim_text_min)
  from a show "length (sanitize T) = 300 \<longleftrightarrow> \<not> is_space (clean_text T ! 296)"
    by (simp add: sanitize_def trim_text_exact)
qed


lemma H_len: "length (py ''https://t'') = 9" by (simp add: py_def)
lemma C_len: "length (py ''co/'') = 3" by (simp add: py_def)
lemma H_ns: "x \<in> set (py ''https://t'') \<Longrightarrow> \<not> is_space x"
  by (auto simp: py_def is_space_def)
lemma C_ns: "x \<in> set (py ''co/'') \<Longrightarrow> \<not> is_space x"
  by (auto simp: py_def is_space_def)
lemma C_hd: "prefix (py ''co/'') r \<Longrightarrow> r \<noteq> [] \<and> hd r = 99"
  by (auto simp: py_def prefix_def)
lemma H_hd: "prefix (py ''https://t'') l \<Longrightarrow> l \<noteq> [] \<and> hd l = 104"
  by (auto simp: py_def prefix_def)
lemma space_not_alnum: "is_space c \<Longrightarrow> \<not> alnum c"
  by (auto simp: is_space_def alnum_def)

lemma prefix_append_long:
  assumes "length p \<le> length xs"
  shows "prefix p (xs @ ys) = prefix p xs"
proof
  assume "prefix p (xs @ ys)"
  then have "p = take (length p) (xs @ ys)" by (metis append_eq_conv_conj prefix_def)
  also have "\<dots> = take (length p) xs" using assms by simp
  finally have "p = take (length p) xs" .
  then show "prefix p xs" by (metis take_is_prefix)
next
  assume "prefix p xs"
  then show "prefix p (xs @ ys)" by (rule prefix_prefix)
qed

lemma prefix_nth: "prefix p s \<Longrightarrow> i < length p \<Longrightarrow> s ! i = p ! i"
  by (auto simp: prefix_def nth_append)

lemma match_None_I:
  "\<not> prefix (py ''https://t'') s \<or> \<not> prefix (py ''co/'') (drop 10 s) \<or> drop 13 s = []
     \<Longrightarrow> SHORT_URL_PATTERN_match s = None"
  by (auto simp: SHORT_URL_PATTERN_match_def)

lemma match_le: "SHORT_URL_PATTERN_match s = Some n \<Longrightarrow> 0 < n \<and> n \<le> length s"
proof -
  assume "SHORT_URL_PATTERN_match s = Some n"
  then have n: "n = 13 + length (takeWhile alnum (drop 13 s))" and ne: "takeWhile alnum (drop 13 s) \<noteq> []"
    by (auto simp: SHORT_URL_PATTERN_match_def split: if_splits)
  have "length (takeWhile alnum (drop 13 s)) \<le> length (drop 13 s)" by (rule length_takeWhile_le)
  moreover from ne have "drop 13 s \<noteq> []" by auto
  ultimately show ?thesis using n by auto
qed

lemma match_cross:
  assumes ne: "a \<noteq> []" and sp: "is_space (last a)" and r: "r = [] \<or> hd r = 104"
  shows "SHORT_URL_PATTERN_match (a @ r) = SHORT_URL_PATTERN_match a"
proof (cases "14 \<le> length a")
  case True
  have 1: "prefix (py ''https://t'') (a @ r) = prefix (py ''https://t'') a"
    using True by (simp add: prefix_append_long H_len)
  have 2: "(a @ r) ! 9 = a ! 9" using True by (simp add: nth_append)
  have 3: "drop 10 (a @ r) = drop 10 a @ r" using True by simp
  have 4: "prefix (py ''co/'') (drop 10 a @ r) = prefix (py ''co/'') (drop 10 a)"
    using True by (simp add: prefix_append_long C_len)
  have 5: "drop 13 (a @ r) = drop 13 a @ r" using True by simp
  from True have d: "drop 13 a \<noteq> []" by simp
  from True have "last (drop 13 a) = last a" by simp
  with d have "last a \<in> set (drop 13 a)" by (metis last_in_set)
  moreover from sp have "\<not> alnum (last a)" by (rule space_not_alnum)
  ultimately have 6: "takeWhile alnum (drop 13 a @ r) = takeWhile alnum (drop 13 a)"
    by (rule takeWhile_append1)
  from True have 7: "9 < length (a @ r)" "9 < length a" by simp_all
  show ?thesis unfolding SHORT_URL_PATTERN_match_def by (simp only: 1 2 3 4 5 6 7)
next
  case False
  then have short: "length a \<le> 13" by simp
  from ne have la: "last a = a ! (length a - 1)" by (rule last_conv_nth)
  from ne have pos: "length a - 1 < length a" by (cases a) simp_all
  then have sa: "(a @ r) ! (length a - 1) = last a" by (simp add: nth_append la)
  have rhs: "SHORT_URL_PATTERN_match a = None"
    using short by (intro match_None_I) simp
  have lhs: "SHORT_URL_PATTERN_match (a @ r) = None"
  proof (rule match_None_I, rule ccontr)
    assume "\<not> (\<not> prefix (py ''https://t'') (a @ r) \<or> \<not> prefix (py ''co/'') (drop 10 (a @ r)) \<or> drop 13 (a @ r) = [])"
    then have pH: "prefix (py ''https://t'') (a @ r)" and pC: "prefix (py ''co/'') (drop 10 (a @ r))"
      by auto
    consider "length a \<le> 9" | "length a = 10" | "11 \<le> length a" using short by linarith
    then show False
    proof cases
      case 1
      with pos have i: "length a - 1 < length (py ''https://t'')" by (simp add: H_len)
      with pH have "(a @ r) ! (length a - 1) = py ''https://t'' ! (length a - 1)" by (rule prefix_nth)
      with sa have "last a \<in> set (py ''https://t'')" using i by (metis nth_mem)
      with sp show False using H_ns by blast
    next
      case 2
      then have "drop 10 (a @ r) = r" by simp
      with pC have "r \<noteq> [] \<and> hd r = 99" using C_hd by simp
      with r show False by auto
    next
      case 3
      with short have i: "length a - 11 < length (py ''co/'')" by (simp add: C_len)
      with pC have "drop 10 (a @ r) ! (length a - 11) = py ''co/'' ! (length a - 11)" by (rule prefix_nth)
      moreover have "drop 10 (a @ r) ! (length a - 11) = (a @ r) ! (length a - 1)"
      proof -
        from 3 have e: "10 + (length a - 11) = length a - 1" by simp
        have "drop 10 (a @ r) ! (length a - 11) = (a @ r) ! (10 + (length a - 11))"
          using 3 by (intro nth_drop) simp
        then show ?thesis by (simp only: e)
      qed
      ultimately have "last a \<in> set (py ''co/'')" using sa i by (metis nth_mem)
      with sp show False using C_ns by blast
    qed
  qed
  from lhs rhs show ?thesis by simp
qed


lemma drop_append_le: "n \<le> length xs \<Longrightarrow> drop n (xs @ ys) = drop n xs @ ys"
  by simp

lemma sub_append_space:
  "a = [] \<or> is_space (last a) \<Longrightarrow> r = [] \<or> hd r = 104 \<Longrightarrow>
     SHORT_URL_PATTERN_sub (a @ r) = SHORT_URL_PATTERN_sub a @ SHORT_URL_PATTERN_sub r"
proof (induction a rule: SHORT_URL_PATTERN_sub.induct)
  case 1
  then show ?case by simp
next
  case (2 c cs)
  from "2.prems"(1) have sp: "is_space (last (c # cs))" by simp
  have m: "SHORT_URL_PATTERN_match ((c # cs) @ r) = SHORT_URL_PATTERN_match (c # cs)"
    using sp "2.prems"(2) by (intro match_cross) simp_all
  show ?case
  proof (cases "SHORT_URL_PATTERN_match (c # cs)")
    case None
    from sp have "cs = [] \<or> is_space (last cs)" by (cases cs) simp_all
    with None "2.IH"(1) "2.prems"(2)
    have "SHORT_URL_PATTERN_sub (cs @ r) = SHORT_URL_PATTERN_sub cs @ SHORT_URL_PATTERN_sub r"
      by simp
    with None m show ?thesis by simp
  next
    case (Some n)
    then have n: "0 < n" "n \<le> length (c # cs)" using match_le by blast+
    then have d: "drop n ((c # cs) @ r) = drop n (c # cs) @ r" by (simp only: drop_append_le)
    have "drop n (c # cs) = [] \<or> is_space (last (drop n (c # cs)))"
    proof (cases "n < length (c # cs)")
      case True
      then have "last (drop n (c # cs)) = last (c # cs)" by (rule last_drop)
      with sp show ?thesis by simp
    next
      case False
      then show ?thesis by simp
    qed
    with Some "2.IH"(2) "2.prems"(2)
    have "SHORT_URL_PATTERN_sub (drop n (c # cs) @ r)
            = SHORT_URL_PATTERN_sub (drop n (c # cs)) @ SHORT_URL_PATTERN_sub r"
      by simp
    with Some m d show ?thesis by (simp del: drop_Suc_Cons)
  qed
qed

lemma takeWhile_full: "length (takeWhile P xs) = length xs \<Longrightarrow> \<forall>x\<in>set xs. P x"
  by (induction xs) (auto split: if_splits)

lemma match_link_append:
  assumes l: "SHORT_URL_PATTERN_match l = Some (length l)" and b: "b = [] \<or> \<not> alnum (hd b)"
  shows "SHORT_URL_PATTERN_match (l @ b) = Some (length l)"
proof -
  from l have pH: "prefix (py ''https://t'') l" and n9: "l ! 9 \<noteq> 10"
    and pC: "prefix (py ''co/'') (drop 10 l)"
    and len: "13 + length (takeWhile alnum (drop 13 l)) = length l"
    and ne: "takeWhile alnum (drop 13 l) \<noteq> []"
    by (auto simp: SHORT_URL_PATTERN_match_def split: if_splits)
  from len ne have long: "14 \<le> length l" by (cases "takeWhile alnum (drop 13 l)") auto
  from len have "length (takeWhile alnum (drop 13 l)) = length (drop 13 l)" by simp
  then have all: "\<forall>x\<in>set (drop 13 l). alnum x" by (rule takeWhile_full)
  from b have tb: "takeWhile alnum b = []" by (cases b) auto
  have 1: "prefix (py ''https://t'') (l @ b)" using pH by (rule prefix_prefix)
  have 2: "(l @ b) ! 9 = l ! 9" using long by (simp add: nth_append)
  have 3: "drop 10 (l @ b) = drop 10 l @ b" using long by simp
  have 4: "prefix (py ''co/'') (drop 10 l @ b)" using pC by (rule prefix_prefix)
  have 5: "drop 13 (l @ b) = drop 13 l @ b" using long by simp
  have 6: "takeWhile alnum (drop 13 l @ b) = drop 13 l"
    using all tb by (simp add: takeWhile_append2)
  from long have 7: "9 < length (l @ b)" by simp
  from long have 8: "drop 13 l \<noteq> []" by simp
  from long have 9: "13 + length (drop 13 l) = length l" by simp
  show ?thesis unfolding SHORT_URL_PATTERN_match_def
    using n9 8 by (simp only: 1 2 3 4 5 6 7 9) simp
qed

lemma sub_link_append:
  assumes l: "SHORT_URL_PATTERN_match l = Some (length l)" and b: "b = [] \<or> \<not> alnum (hd b)"
  shows "SHORT_URL_PATTERN_sub (l @ b) = SHORT_URL_PATTERN_sub b"
proof -
  from l have "0 < length l" using match_le by blast
  then obtain c cs where lc: "l = c # cs" by (cases l) auto
  have "SHORT_URL_PATTERN_match (c # cs @ b) = Some (length l)"
    using match_link_append[OF l b] lc by simp
  then have "SHORT_URL_PATTERN_sub (c # cs @ b) = SHORT_URL_PATTERN_sub (drop (length l) (c # cs @ b))"
    by (simp del: drop_Suc_Cons)
  also have "drop (length l) (c # cs @ b) = b" using lc by simp
  finally show ?thesis using lc by simp
qed

lemma sub_compose:
  assumes "SHORT_URL_PATTERN_match l = Some (length l)"
    and "a = [] \<or> is_space (last a)" and "b = [] \<or> \<not> alnum (hd b)"
  shows "SHORT_URL_PATTERN_sub (a @ l @ b) = SHORT_URL_PATTERN_sub a @ SHORT_URL_PATTERN_sub b"
proof -
  from assms(1) have "prefix (py ''https://t'') l"
    by (auto simp: SHORT_URL_PATTERN_match_def split: if_splits)
  then have "l \<noteq> [] \<and> hd l = 104" by (rule H_hd)
  then have "hd (l @ b) = 104" by simp
  then have "SHORT_URL_PATTERN_sub (a @ l @ b) = SHORT_URL_PATTERN_sub a @ SHORT_URL_PATTERN_sub (l @ b)"
    using assms(2) by (intro sub_append_space) simp_all
  then show ?thesis using assms by (simp add: sub_link_append)
qed

lemma sub_no_h: "104 \<notin> set s \<Longrightarrow> SHORT_URL_PATTERN_sub s = s"
proof (induction s)
  case Nil
  then show ?case by simp
next
  case (Cons c cs)
  then have "c \<noteq> 104" by auto
  then have "\<not> prefix (py ''https://t'') (c # cs)" using H_hd by fastforce
  then have "SHORT_URL_PATTERN_match (c # cs) = None" by (intro match_None_I) simp
  with Cons show ?case by simp
qed


lemma sub_length: "length (SHORT_URL_PATTERN_sub s) \<le> length s"
proof (induction s rule: SHORT_URL_PATTERN_sub.induct)
  case 1
  then show ?case by simp
next
  case (2 c cs)
  show ?case
  proof (cases "SHORT_URL_PATTERN_match (c # cs)")
    case None
    with 2 show ?thesis by simp
  next
    case (Some n)
    with 2 have "length (SHORT_URL_PATTERN_sub (drop n (c # cs))) \<le> length (drop n (c # cs))" by simp
    also have "\<dots> \<le> length (c # cs)" by simp
    finally show ?thesis using Some by (simp del: drop_Suc_Cons)
  qed
qed

lemma sub_shrinks: "has_short_link s \<Longrightarrow> length (SHORT_URL_PATTERN_sub s) < length s"
proof (induction s rule: SHORT_URL_PATTERN_sub.induct)
  case 1
  then show ?case by (simp add: has_short_link_def)
next
  case (2 c cs)
  show ?case
  proof (cases "SHORT_URL_PATTERN_match (c # cs)")
    case (Some n)
    then have n: "0 < n" using match_le by blast
    have "length (SHORT_URL_PATTERN_sub (drop n (c # cs))) \<le> length (drop n (c # cs))"
      by (rule sub_length)
    also have "\<dots> < length (c # cs)" using n by simp
    finally show ?thesis using Some by (simp del: drop_Suc_Cons)
  next
    case None
    from "2.prems" obtain i where i: "i < length (c # cs)"
      and m: "SHORT_URL_PATTERN_match (drop i (c # cs)) \<noteq> None"
      by (auto simp: has_short_link_def)
    from m None have "i \<noteq> 0" by (cases i) auto
    then obtain j where j: "i = Suc j" by (cases i) auto
    with i m have "has_short_link cs" by (auto simp: has_short_link_def)
    with None "2.IH"(1) have "length (SHORT_URL_PATTERN_sub cs) < length cs" by simp
    with None show ?thesis by simp
  qed
qed

lemma sub_absent: "\<not> has_short_link s \<Longrightarrow> SHORT_URL_PATTERN_sub s = s"
proof (induction s)
  case Nil
  then show ?case by simp
next
  case (Cons c cs)
  from Cons.prems have "SHORT_URL_PATTERN_match (drop 0 (c # cs)) = None"
    unfolding has_short_link_def by (metis length_greater_0_conv list.distinct(1))
  then have m: "SHORT_URL_PATTERN_match (c # cs) = None" by simp
  have "\<not> has_short_link cs"
  proof
    assume "has_short_link cs"
    then obtain i where "i < length cs" "SHORT_URL_PATTERN_match (drop i cs) \<noteq> None"
      by (auto simp: has_short_link_def)
    then have "Suc i < length (c # cs)" "SHORT_URL_PATTERN_match (drop (Suc i) (c # cs)) \<noteq> None"
      by simp_all
    then have "has_short_link (c # cs)" unfolding has_short_link_def by blast
    with Cons.prems show False by simp
  qed
  with Cons.IH m show ?case by simp
qed

lemma py_strip_id:
  assumes "s \<noteq> []" and "\<not> is_space (hd s)" and "\<not> is_space (last s)"
  shows "py_strip s = s"
proof -
  from assms(1,2) have l: "py_lstrip s = s" by (cases s) (simp_all add: py_lstrip_def)
  from assms(1,3) have "dropWhile is_space (rev s) = rev s"
    by (cases s rule: rev_cases) simp_all
  then have "py_rstrip s = s" by (simp add: py_rstrip_def)
  with l show ?thesis by (simp add: py_strip_def)
qed

lemma long_text_clean: "clean_text long_text = long_text"
proof -
  have "104 \<notin> set long_text" by (simp add: long_text_def)
  then have "SHORT_URL_PATTERN_sub long_text = long_text" by (rule sub_no_h)
  moreover have "py_strip long_text = long_text"
    by (rule py_strip_id) (simp_all add: long_text_def is_space_def)
  ultimately show ?thesis by (simp add: clean_text_def)
qed

lemma long_text_sanitize: "sanitize long_text = replicate 296 97 @ py ''...''"
proof -
  have t: "take 297 long_text = replicate 296 97 @ [32]" by (simp add: long_text_def)
  have "py_rstrip (replicate 296 97 @ [32]) = replicate 296 97"
    by (simp add: py_rstrip_def is_space_def)
  moreover have "300 < length long_text" by (simp add: long_text_def)
  ultimately show ?thesis
    by (simp add: sanitize_def long_text_clean trim_text_long t)
qed

lemma wide_text_clean: "clean_text wide_text = wide_text"
proof -
  have "104 \<notin> set wide_text" by (simp add: wide_text_def)
  then have "SHORT_URL_PATTERN_sub wide_text = wide_text" by (rule sub_no_h)
  moreover have "py_strip wide_text = wide_text"
    by (rule py_strip_id) (simp_all add: wide_text_def is_space_def)
  ultimately show ?thesis by (simp add: clean_text_def)
qed

text \<open>
  The claim C1 as it was stated asks for exactly 300 characters whenever the text is
  longer than 300. \<open>long_text\<close> has 307 characters, the 297th a space, and is
  cut to 299.
\<close>

theorem sanitize_length_counterexample: "300 < length (clean_text long_text) \<and> length (sanitize long_text) = 299"
  by (simp add: long_text_sanitize long_text_clean) (simp add: long_text_def py_def)

lemma sanitize_two_links: "sanitize (py ''one https://t.co/Ab1 two https://t.co/Cd2 three'') = py ''one  two  three''"
  by (simp add: sanitize_def clean_text_def trim_text_def py_strip_def py_lstrip_def py_rstrip_def
      py_def SHORT_URL_PATTERN_match_def alnum_def is_space_def BLUESKY_LIMIT_def)


lemma sanitize_one_link: "sanitize (py ''Check this out https://t.co/abc123'') = py ''Check this out''"
  by (simp add: sanitize_def clean_text_def trim_text_def py_strip_def py_lstrip_def py_rstrip_def
      py_def SHORT_URL_PATTERN_match_def alnum_def is_space_def BLUESKY_LIMIT_def)

lemma wide_text_sanitize_len: "300 < length (clean_text wide_text) \<and> \<not> is_space (clean_text wide_text ! 296)"
  by (simp add: wide_text_clean) (simp add: wide_text_def is_space_def)

lemma short_clean: "clean_text (py ''Check this out https://t.co/abc123'') = py ''Check this out''"
  by (simp add: clean_text_def py_strip_def py_lstrip_def py_rstrip_def
      py_def SHORT_URL_PATTERN_match_def alnum_def is_space_def)

text \<open>
  The three branches of C1 at concrete texts: a short text with a link, 310 letters
  (cut to exactly 300) and \<open>long_text\<close> (cut to fewer).
\<close>

theorem sanitize_truncation_witness:
  "length (clean_text (py ''Check this out https://t.co/abc123'')) \<le> 300 \<and>
   sanitize (py ''Check this out https://t.co/abc123'') = py ''Check this out'' \<and>
   300 < length (clean_text wide_text) \<and>
   sanitize wide_text = py_rstrip (take 297 (clean_text wide_text)) @ py ''...'' \<and>
   suffix (py ''...'') (sanitize wide_text) \<and>
   length (sanitize wide_text) = 300 \<and>
   300 < length (clean_text long_text) \<and>
   is_space (clean_text long_text ! 296) \<and>
   length (sanitize long_text) \<noteq> 300"
proof -
  have s: "length (clean_text (py ''Check this out https://t.co/abc123'')) \<le> 300"
    by (simp add: short_clean) (simp add: py_def)
  have w: "300 < length (clean_text wide_text)" "\<not> is_space (clean_text wide_text ! 296)"
    using wide_text_sanitize_len by simp_all
  have l: "300 < length (clean_text long_text)" "is_space (clean_text long_text ! 296)"
    by (simp_all add: long_text_clean) (simp_all add: long_text_def is_space_def nth_append)
  from s sanitize_truncation[of "py ''Check this out https://t.co/abc123''"]
  have 1: "sanitize (py ''Check this out https://t.co/abc123'') = py ''Check this out''"
    by (simp add: short_clean)
  from w sanitize_truncation[of wide_text]
  have 2: "sanitize wide_text = py_rstrip (take 297 (clean_text wide_text)) @ py ''...''"
    "suffix (py ''...'') (sanitize wide_text)" "length (sanitize wide_text) = 300"
    by blast+
  from l sanitize_truncation[of long_text]
  have 3: "length (sanitize long_text) \<noteq> 300" by blast
  from s w l 1 2 3 show ?thesis by blast
qed

section \<open>The claims about \<open>fix_utm_source\<close>\<close>

lemma utm_sub_changes:
  "i < length u \<Longrightarrow> utm_sub u ! i \<noteq> u ! i \<Longrightarrow>
     \<exists>j\<le>i. i < j + length utm_twitter \<and> prefix utm_twitter (drop j u)"
proof (induction u arbitrary: i rule: utm_sub.induct)
  case 1
  then show ?case by simp
next
  case (2 c cs)
  have len: "length utm_twitter = 18" "length utm_bluesky = 18"
    by (simp_all add: utm_twitter_val utm_bluesky_val)
  show ?case
  proof (cases "prefix utm_twitter (c # cs)")
    case True
    show ?thesis
    proof (cases "i < 18")
      case True
      with \<open>prefix utm_twitter (c # cs)\<close> len show ?thesis by (intro exI[of _ 0]) simp
    next
      case False
      define k where "k = i - 18"
      from False have i: "i = 18 + k" by (simp add: k_def)
      let ?d = "drop (length utm_twitter) (c # cs)"
      from True have s: "utm_sub (c # cs) = utm_bluesky @ utm_sub ?d" by simp
      have l: "utm_sub (c # cs) ! i = utm_sub ?d ! k"
        unfolding s i using len by (simp add: nth_append)
      from "2.prems"(1) i have kl: "k < length ?d" by (simp add: len)
      then have r: "(c # cs) ! i = ?d ! k" unfolding i len by (simp add: add.commute)
      from "2.prems"(2) l r have "utm_sub ?d ! k \<noteq> ?d ! k" by simp
      with "2.IH"(1)[OF True kl] obtain j where j: "j \<le> k" "k < j + length utm_twitter"
        "prefix utm_twitter (drop j ?d)" by blast
      have "drop j ?d = drop (j + 18) (c # cs)" unfolding len by (simp only: drop_drop)
      with j i show ?thesis by (intro exI[of _ "j + 18"]) simp
    qed
  next
    case False
    then have s: "utm_sub (c # cs) = c # utm_sub cs" by simp
    from "2.prems"(2) s obtain k where i: "i = Suc k" by (cases i) auto
    with "2.prems" s have "k < length cs" "utm_sub cs ! k \<noteq> cs ! k" by simp_all
    with "2.IH"(2)[OF False] obtain j where "j \<le> k" "k < j + length utm_twitter"
      "prefix utm_twitter (drop j cs)" by blast
    with i show ?thesis by (intro exI[of _ "Suc j"]) simp
  qed
qed

lemma not_sublist_no_u: "117 \<notin> set s \<Longrightarrow> \<not> sublist utm_twitter s"
proof
  assume a: "117 \<notin> set s" and b: "sublist utm_twitter s"
  from b have "set utm_twitter \<subseteq> set s" by (rule set_mono_sublist)
  with a show False by (simp add: utm_twitter_val)
qed

text \<open>
  Claim C5. \<open>None\<close> and the empty string pass through. The first occurrence of
  \<open>utm_source=twitter\<close> is replaced by \<open>utm_source=bluesky\<close>, what stands before it
  is kept and what follows is rewritten in the same way; a non-empty URL is rewritten
  by \<open>utm_sub\<close>, which keeps the length and changes only positions that lie inside
  an occurrence of \<open>utm_source=twitter\<close>. Rewriting twice is rewriting once, and a
  URL without \<open>utm_source=twitter\<close> (exact, case-sensitive) is left as it is.
\<close>

theorem fix_utm_source_laws:
  "fix_utm_source None = None \<and>
   fix_utm_source (Some []) = Some [] \<and>
   (\<not> sublist utm_twitter (a @ butlast utm_twitter) \<longrightarrow>
      fix_utm_source (Some (a @ utm_twitter @ b)) = Some (a @ utm_bluesky @ utm_sub b)) \<and>
   fix_utm_source (Some b) = Some (utm_sub b) \<and>
   length (utm_sub b) = length b \<and>
   fix_utm_source (fix_utm_source url) = fix_utm_source url \<and>
   (\<not> sublist utm_twitter u \<longrightarrow> fix_utm_source (Some u) = Some u) \<and>
   (i < length u \<and> utm_sub u ! i \<noteq> u ! i \<longrightarrow>
      (\<exists>j\<le>i. i < j + length utm_twitter \<and> prefix utm_twitter (drop j u)))"
proof (intro conjI impI)
  show "fix_utm_source None = None" by (simp add: fix_utm_source_def)
  show "fix_utm_source (Some []) = Some []" by (simp add: fix_utm_source_def)
  show "fix_utm_source (Some b) = Some (utm_sub b)" by (simp add: fix_utm_source_def)
  show "length (utm_sub b) = length b" by (rule utm_sub_length)
  show "fix_utm_source (fix_utm_source url) = fix_utm_source url"
    by (cases url) (simp_all add: fix_utm_source_def utm_sub_idem)
next
  assume "\<not> sublist utm_twitter (a @ butlast utm_twitter)"
  then have "utm_sub (a @ utm_twitter @ b) = a @ utm_bluesky @ utm_sub b" by (rule utm_sub_first)
  moreover have "utm_twitter \<noteq> []" by (simp add: utm_twitter_val)
  ultimately show "fix_utm_source (Some (a @ utm_twitter @ b)) = Some (a @ utm_bluesky @ utm_sub b)"
    by (simp add: fix_utm_source_def)
next
  assume "\<not> sublist utm_twitter u"
  then show "fix_utm_source (Some u) = Some u" by (simp add: fix_utm_source_def utm_sub_absent)
next
  assume "i < length u \<and> utm_sub u ! i \<noteq> u ! i"
  then show "\<exists>j\<le>i. i < j + length utm_twitter \<and> prefix utm_twitter (drop j u)"
    using utm_sub_changes by blast
qed

text \<open>C5 at \<open>https://example.com/a?utm_source=twitter\<close> and at a URL with another case.\<close>

theorem fix_utm_source_laws_witness:
  "\<not> sublist utm_twitter (py ''https://example.com/a?'' @ butlast utm_twitter) \<and>
   fix_utm_source (Some (py ''https://example.com/a?utm_source=twitter''))
     = Some (py ''https://example.com/a?utm_source=bluesky'') \<and>
   \<not> sublist utm_twitter (py ''https://example.com/a?UTM_SOURCE=Twitter'') \<and>
   fix_utm_source (Some (py ''https://example.com/a?UTM_SOURCE=Twitter''))
     = Some (py ''https://example.com/a?UTM_SOURCE=Twitter'')"
proof -
  have 1: "\<not> sublist utm_twitter (py ''https://example.com/a?'' @ butlast utm_twitter)"
    by (simp add: utm_twitter_val py_def sublist_Cons_right prefix_Cons)
  have 2: "\<not> sublist utm_twitter (py ''https://example.com/a?UTM_SOURCE=Twitter'')"
    by (rule not_sublist_no_u) (simp add: py_def)
  have e: "py ''https://example.com/a?utm_source=twitter'' = py ''https://example.com/a?'' @ utm_twitter @ []"
    "py ''https://example.com/a?utm_source=bluesky'' = py ''https://example.com/a?'' @ utm_bluesky @ utm_sub []"
    by (simp_all add: py_def utm_twitter_def utm_bluesky_def)
  from 1 fix_utm_source_laws[of "py ''https://example.com/a?''" "[]"]
  have 3: "fix_utm_source (Some (py ''https://example.com/a?utm_source=twitter''))
     = Some (py ''https://example.com/a?utm_source=bluesky'')"
    unfolding e by blast
  from 2 fix_utm_source_laws[of _ _ _ "py ''https://example.com/a?UTM_SOURCE=Twitter''"]
  have 4: "fix_utm_source (Some (py ''https://example.com/a?UTM_SOURCE=Twitter''))
     = Some (py ''https://example.com/a?UTM_SOURCE=Twitter'')"
    by blast
  from 1 2 3 4 show ?thesis by blast
qed


section \<open>The claim about short links\<close>

text \<open>
  Claim C7. A short link is a text the pattern matches as a whole. A short link that
  stands at the start of the text or after whitespace, and at the end of the text or
  before a character that is not a letter or digit, is removed, and the text before it
  and the text after it are treated in the same way, so every such link goes, not only
  the first. A text is changed if and only if the pattern matches somewhere in it. The
  text of the spec's scenario and a text with two links are sanitised as expected.
\<close>

theorem short_link_stripping:
  "(SHORT_URL_PATTERN_match l = Some (length l) \<and> (a = [] \<or> is_space (last a)) \<and>
      (b = [] \<or> \<not> alnum (hd b)) \<longrightarrow>
      SHORT_URL_PATTERN_sub (a @ l @ b) = SHORT_URL_PATTERN_sub a @ SHORT_URL_PATTERN_sub b) \<and>
   (has_short_link t \<longleftrightarrow> SHORT_URL_PATTERN_sub t \<noteq> t) \<and>
   sanitize (py ''Check this out https://t.co/abc123'') = py ''Check this out'' \<and>
   sanitize (py ''one https://t.co/Ab1 two https://t.co/Cd2 three'') = py ''one  two  three''"
proof (intro conjI impI)
  assume "SHORT_URL_PATTERN_match l = Some (length l) \<and> (a = [] \<or> is_space (last a)) \<and>
      (b = [] \<or> \<not> alnum (hd b))"
  then show "SHORT_URL_PATTERN_sub (a @ l @ b) = SHORT_URL_PATTERN_sub a @ SHORT_URL_PATTERN_sub b"
    by (intro sub_compose) simp_all
next
  show "has_short_link t \<longleftrightarrow> SHORT_URL_PATTERN_sub t \<noteq> t"
  proof
    assume "has_short_link t"
    then have "length (SHORT_URL_PATTERN_sub t) < length t" by (rule sub_shrinks)
    then show "SHORT_URL_PATTERN_sub t \<noteq> t" by auto
  next
    assume "SHORT_URL_PATTERN_sub t \<noteq> t"
    then show "has_short_link t" using sub_absent by blast
  qed
next
  show "sanitize (py ''Check this out https://t.co/abc123'') = py ''Check this out''"
    by (rule sanitize_one_link)
  show "sanitize (py ''one https://t.co/Ab1 two https://t.co/Cd2 three'') = py ''one  two  three''"
    by (rule sanitize_two_links)
qed

text \<open>C7 at \<open>Check this out https://t.co/abc123 and more\<close>.\<close>

theorem short_link_stripping_witness:
  "SHORT_URL_PATTERN_match (py ''https://t.co/abc123'') = Some (length (py ''https://t.co/abc123'')) \<and>
   is_space (last (py ''Check this out '')) \<and>
   \<not> alnum (hd (py '' and more'')) \<and>
   SHORT_URL_PATTERN_sub (py ''Check this out '' @ py ''https://t.co/abc123'' @ py '' and more'')
     = SHORT_URL_PATTERN_sub (py ''Check this out '') @ SHORT_URL_PATTERN_sub (py '' and more'')"
proof -
  have 1: "SHORT_URL_PATTERN_match (py ''https://t.co/abc123'') = Some (length (py ''https://t.co/abc123''))"
    by (simp add: SHORT_URL_PATTERN_match_def py_def alnum_def)
  have 2: "is_space (last (py ''Check this out ''))" by (simp add: py_def is_space_def)
  have 3: "\<not> alnum (hd (py '' and more''))" by (simp add: py_def alnum_def)
  from 1 2 3 short_link_stripping[of "py ''https://t.co/abc123''" "py ''Check this out ''" "py '' and more''"]
  have "SHORT_URL_PATTERN_sub (py ''Check this out '' @ py ''https://t.co/abc123'' @ py '' and more'')
     = SHORT_URL_PATTERN_sub (py ''Check this out '') @ SHORT_URL_PATTERN_sub (py '' and more'')"
    by blast
  with 1 2 3 show ?thesis by blast
qed

section \<open>One pass of the loop, case by case\<close>

lemma iteration_fetch_error:
  "get_user_tweets env = Inl e \<Longrightarrow>
     loop_iteration env prev = (prev, [Print (CriticalLoopError e), Sleep 60])"
  by (simp add: loop_iteration_def try_block_def)

lemma iteration_no_tweets:
  "get_user_tweets env = Inr [] \<Longrightarrow> loop_iteration env prev = (prev, [Sleep 60])"
  by (simp add: loop_iteration_def try_block_def)

lemma iteration_same_tweet:
  "get_user_tweets env = Inr (latest # rest) \<Longrightarrow> prev = Some (tw_id latest) \<Longrightarrow>
     loop_iteration env prev = (prev, [Sleep 60])"
  by (simp add: loop_iteration_def try_block_def)

lemma iteration_embed_error:
  "get_user_tweets env = Inr (latest # rest) \<Longrightarrow> prev \<noteq> Some (tw_id latest) \<Longrightarrow>
   build_embed env (fix_utm_source (first_url latest)) = (Inl e, ev) \<Longrightarrow>
     loop_iteration env prev =
       (prev, Print (NewTweet (take 50 (tw_text latest))) # ev @ [Print (CriticalLoopError e), Sleep 60])"
  by (simp add: loop_iteration_def try_block_def)

lemma iteration_posted:
  "get_user_tweets env = Inr (latest # rest) \<Longrightarrow> prev \<noteq> Some (tw_id latest) \<Longrightarrow>
   build_embed env (fix_utm_source (first_url latest)) = (Inr m, ev) \<Longrightarrow>
   send_post env (sanitize (tw_text latest)) m = Inr u \<Longrightarrow>
     loop_iteration env prev =
       (Some (tw_id latest),
        Print (NewTweet (take 50 (tw_text latest))) # ev @
        (if length (clean_text (tw_text latest)) > BLUESKY_LIMIT
         then [Print (TooLong (length (clean_text (tw_text latest))))] else []) @
        [SendPost (sanitize (tw_text latest)) m, Print Posted, Sleep 60])"
  by (simp add: loop_iteration_def try_block_def sanitize_def)

lemma iteration_post_error:
  "get_user_tweets env = Inr (latest # rest) \<Longrightarrow> prev \<noteq> Some (tw_id latest) \<Longrightarrow>
   build_embed env (fix_utm_source (first_url latest)) = (Inr m, ev) \<Longrightarrow>
   send_post env (sanitize (tw_text latest)) m = Inl e \<Longrightarrow>
     loop_iteration env prev =
       (prev,
        Print (NewTweet (take 50 (tw_text latest))) # ev @
        (if length (clean_text (tw_text latest)) > BLUESKY_LIMIT
         then [Print (TooLong (length (clean_text (tw_text latest))))] else []) @
        [SendPost (sanitize (tw_text latest)) m, Print (PostError e), Sleep 60])"
  by (simp add: loop_iteration_def try_block_def sanitize_def)

lemma publish_calls_simps:
  "publish_calls [] = []"
  "publish_calls (Print l # ev) = publish_calls ev"
  "publish_calls (Sleep n # ev) = publish_calls ev"
  "publish_calls (UploadBlob b # ev) = publish_calls ev"
  "publish_calls (SendPost t m # ev) = (t, m) # publish_calls ev"
  "publish_calls (ev @ ev') = publish_calls ev @ publish_calls ev'"
  by (simp_all add: publish_calls_def List.map_filter_def)

lemma posted_count_simps:
  "posted_count [] = 0"
  "posted_count (Print l # ev) = (if l = Posted then 1 else 0) + posted_count ev"
  "posted_count (Sleep n # ev) = posted_count ev"
  "posted_count (UploadBlob b # ev) = posted_count ev"
  "posted_count (SendPost t m # ev) = posted_count ev"
  "posted_count (ev @ ev') = posted_count ev + posted_count ev'"
  by (simp_all add: posted_count_def)

lemma get_metadata_quiet:
  "publish_calls (snd (get_metadata session parse url)) = [] \<and>
   posted_count (snd (get_metadata session parse url)) = 0"
  by (simp add: get_metadata_def publish_calls_simps posted_count_simps split: sum.splits)

lemma fetch_image_quiet:
  "publish_calls (snd (fetch_image_to_memory session url)) = [] \<and>
   posted_count (snd (fetch_image_to_memory session url)) = 0"
  by (simp add: fetch_image_to_memory_def publish_calls_simps posted_count_simps split: sum.splits)

lemma build_embed_quiet:
  "publish_calls (snd (build_embed env full_url)) = [] \<and>
   posted_count (snd (build_embed env full_url)) = 0"
proof -
  obtain md ev where g: "get_metadata (session_get env) (html_fromstring env) (the full_url) = (md, ev)"
    by (cases "get_metadata (session_get env) (html_fromstring env) (the full_url)")
  from get_metadata_quiet[of "session_get env" "html_fromstring env" "the full_url"] g
  have q: "publish_calls ev = []" "posted_count ev = 0" by simp_all
  obtain im ev' where f: "fetch_image_to_memory (session_get env) (the (md_thumbnail (the md))) = (im, ev')"
    by (cases "fetch_image_to_memory (session_get env) (the (md_thumbnail (the md)))")
  from fetch_image_quiet[of "session_get env" "the (md_thumbnail (the md))"] f
  have q': "publish_calls ev' = []" "posted_count ev' = 0" by simp_all
  show ?thesis
    using g f q q'
    by (auto simp: build_embed_def publish_calls_simps posted_count_simps
        split: option.splits sum.splits)
qed

section \<open>The claim about \<open>get_metadata\<close>\<close>

text \<open>
  Claim C6. Of a fetched document, the title is the text of the first \<open>title\<close>
  element, or \<open>No title\<close> when there is none or it is empty; the description is the
  first \<open>og:description\<close> content, else the first \<open>name=description\<close> content, else
  \<open>No description\<close>; the thumbnail is the first \<open>og:image\<close> content, else none. A
  status outside 200 to 299 gives no metadata (as does every status but 200), and an
  exception of the request, of the read or of the parser gives no metadata and a
  printed warning; nothing is raised.
\<close>

theorem get_metadata_contract:
  "(session url 10 = Inl e \<longrightarrow>
      get_metadata session parse url = (None, [Print (MetadataWarning url e)])) \<and>
   (session url 10 = Inr r \<and> \<not> (200 \<le> resp_status r \<and> resp_status r \<le> 299) \<longrightarrow>
      get_metadata session parse url = (None, [])) \<and>
   (session url 10 = Inr r \<and> resp_status r = 200 \<and> resp_content_read r (1024 * 10) = Inl e \<longrightarrow>
      get_metadata session parse url = (None, [Print (MetadataWarning url e)])) \<and>
   (session url 10 = Inr r \<and> resp_status r = 200 \<and> resp_content_read r (1024 * 10) = Inr chunk \<and>
      parse chunk = Inl e \<longrightarrow>
      get_metadata session parse url = (None, [Print (MetadataWarning url e)])) \<and>
   (session url 10 = Inr r \<and> resp_status r = 200 \<and> resp_content_read r (1024 * 10) = Inr chunk \<and>
      parse chunk = Inr tree \<longrightarrow>
      get_metadata session parse url = (Some (extract_metadata tree), [])) \<and>
   md_title (extract_metadata tree) =
     (if findtext_title tree = None \<or> findtext_title tree = Some [] then py ''No title''
      else the (findtext_title tree)) \<and>
   md_description (extract_metadata tree) =
     (if xpath_meta_content attr_property (py ''og:description'') tree \<noteq> []
      then hd (xpath_meta_content attr_property (py ''og:description'') tree)
      else if xpath_meta_content attr_name (py ''description'') tree \<noteq> []
      then hd (xpath_meta_content attr_name (py ''description'') tree)
      else py ''No description'') \<and>
   md_thumbnail (extract_metadata tree) =
     (if xpath_meta_content attr_property (py ''og:image'') tree = [] then None
      else Some (hd (xpath_meta_content attr_property (py ''og:image'') tree)))"
  by (auto simp: get_metadata_def extract_metadata_def split: option.splits list.splits)

text \<open>C6 at the scenario's page, at a 404, at an unreachable host and at a parser error.\<close>

theorem get_metadata_contract_witness:
  "get_metadata scenario_session (\<lambda>chunk. Inr scenario_tree) (py ''https://example.com/a?utm_source=bluesky'')
     = (Some \<lparr>md_title = py ''Ex'', md_description = py ''D'',
               md_thumbnail = Some (py ''http://img/x.png'')\<rparr>, []) \<and>
   get_metadata not_found_session (\<lambda>chunk. Inr scenario_tree) (py ''https://example.com/gone'') = (None, []) \<and>
   get_metadata scenario_session (\<lambda>chunk. Inr scenario_tree) (py ''https://example.org/'')
     = (None, [Print (MetadataWarning (py ''https://example.org/'') (Exn (py ''unreachable'')))]) \<and>
   get_metadata scenario_session (\<lambda>chunk. Inl (Exn (py ''Document is empty'')))
       (py ''https://example.com/a?utm_source=bluesky'')
     = (None, [Print (MetadataWarning (py ''https://example.com/a?utm_source=bluesky'')
                 (Exn (py ''Document is empty'')))])"
proof -
  let ?u = "py ''https://example.com/a?utm_source=bluesky''"
  have s: "scenario_session ?u 10 = Inr (ok_response [60, 104])"
    "resp_status (ok_response [60, 104]) = 200"
    "resp_content_read (ok_response [60, 104]) (1024 * 10) = Inr [60, 104]"
    by (simp_all add: scenario_session_def ok_response_def)
  have x: "extract_metadata scenario_tree =
      \<lparr>md_title = py ''Ex'', md_description = py ''D'', md_thumbnail = Some (py ''http://img/x.png'')\<rparr>"
    by (simp add: extract_metadata_def findtext_title_def xpath_meta_content_def scenario_tree_def
        List.map_filter_def py_def)
  from s get_metadata_contract[of scenario_session ?u _ "\<lambda>chunk. Inr scenario_tree"
      "ok_response [60, 104]" "[60, 104]" scenario_tree]
  have 1: "get_metadata scenario_session (\<lambda>chunk. Inr scenario_tree) ?u = (Some (extract_metadata scenario_tree), [])"
    by simp
  have n: "not_found_session (py ''https://example.com/gone'') 10 =
      Inr \<lparr>resp_status = 404, resp_content_read = (\<lambda>n. Inr []), resp_read = Inr []\<rparr>"
    by (simp add: not_found_session_def)
  from n get_metadata_contract[of not_found_session "py ''https://example.com/gone''" _
      "\<lambda>chunk. Inr scenario_tree" "\<lparr>resp_status = 404, resp_content_read = (\<lambda>n. Inr []), resp_read = Inr []\<rparr>"]
  have 2: "get_metadata not_found_session (\<lambda>chunk. Inr scenario_tree) (py ''https://example.com/gone'') = (None, [])"
    by simp
  have u: "scenario_session (py ''https://example.org/'') 10 = Inl (Exn (py ''unreachable''))"
    by (simp add: scenario_session_def py_def)
  from u get_metadata_contract[of scenario_session "py ''https://example.org/''" "Exn (py ''unreachable'')"
      "\<lambda>chunk. Inr scenario_tree"]
  have 3: "get_metadata scenario_session (\<lambda>chunk. Inr scenario_tree) (py ''https://example.org/'')
     = (None, [Print (MetadataWarning (py ''https://example.org/'') (Exn (py ''unreachable'')))])"
    by simp
  from s get_metadata_contract[of scenario_session ?u "Exn (py ''Document is empty'')"
      "\<lambda>chunk. Inl (Exn (py ''Document is empty''))" "ok_response [60, 104]" "[60, 104]"]
  have 4: "get_metadata scenario_session (\<lambda>chunk. Inl (Exn (py ''Document is empty''))) ?u
     = (None, [Print (MetadataWarning ?u (Exn (py ''Document is empty'')))])"
    by simp
  from 1 2 3 4 x show ?thesis by simp
qed

lemma build_embed_absent:
  "url \<noteq> [] \<Longrightarrow> fetched_thumbnail env url = None \<Longrightarrow> fst (build_embed env (Some url)) = Inr None"
  by (auto simp: build_embed_def fetched_thumbnail_def split: option.splits prod.splits if_splits)

lemma build_embed_present:
  "url \<noteq> [] \<Longrightarrow> fetched_thumbnail env url = Some (md, img) \<Longrightarrow>
     fst (build_embed env (Some url)) =
       (case upload_blob env img of
          Inl e \<Rightarrow> Inl e
        | Inr blob \<Rightarrow> Inr (Some \<lparr>ext_title = md_title md, ext_description = md_description md,
                                 ext_uri = url, ext_thumb = blob\<rparr>))"
  by (auto simp: build_embed_def fetched_thumbnail_def split: option.splits prod.splits if_splits sum.splits)

lemma iteration_calls_error:
  assumes "get_user_tweets env = Inr (latest # rest)" and "prev \<noteq> Some (tw_id latest)"
    and "fst (build_embed env (fix_utm_source (first_url latest))) = Inl e"
  shows "publish_calls (snd (loop_iteration env prev)) = []"
    and "fst (loop_iteration env prev) = prev"
    and "posted_count (snd (loop_iteration env prev)) = 0"
proof -
  obtain ev where b: "build_embed env (fix_utm_source (first_url latest)) = (Inl e, ev)"
    using assms(3) by (cases "build_embed env (fix_utm_source (first_url latest))") auto
  from build_embed_quiet[of env "fix_utm_source (first_url latest)"] b
  have q: "publish_calls ev = []" "posted_count ev = 0" by simp_all
  from iteration_embed_error[OF assms(1,2) b] q
  show "publish_calls (snd (loop_iteration env prev)) = []"
    and "fst (loop_iteration env prev) = prev"
    and "posted_count (snd (loop_iteration env prev)) = 0"
    by (simp_all add: publish_calls_simps posted_count_simps)
qed

lemma iteration_calls_sent:
  assumes "get_user_tweets env = Inr (latest # rest)" and "prev \<noteq> Some (tw_id latest)"
    and "fst (build_embed env (fix_utm_source (first_url latest))) = Inr m"
  shows "publish_calls (snd (loop_iteration env prev)) = [(sanitize (tw_text latest), m)]"
proof -
  obtain ev where b: "build_embed env (fix_utm_source (first_url latest)) = (Inr m, ev)"
    using assms(3) by (cases "build_embed env (fix_utm_source (first_url latest))") auto
  from build_embed_quiet[of env "fix_utm_source (first_url latest)"] b
  have q: "publish_calls ev = []" by simp
  show ?thesis
  proof (cases "send_post env (sanitize (tw_text latest)) m")
    case (Inl e)
    from iteration_post_error[OF assms(1,2) b Inl] q show ?thesis
      by (simp add: publish_calls_simps)
  next
    case (Inr u)
    from iteration_posted[OF assms(1,2) b Inr] q show ?thesis
      by (simp add: publish_calls_simps)
  qed
qed

section \<open>The claim about the embed\<close>

text \<open>
  Claim C2. Take a pass of the loop that finds a new tweet whose first URL, after
  \<open>fix_utm_source\<close>, is a non-empty \<open>url\<close>. If the metadata fetch, the thumbnail URL or
  the image fetch is missing, exactly one post is sent: the sanitised text without an
  embed. If all three are there and the upload returns a blob, exactly one post is sent:
  the sanitised text with the embed of the title, the description, the URL and the blob.
  If the upload raises, nothing is sent. Hence every post that is sent carries the
  sanitised text, and carries an embed if and only if the metadata fetch succeeded, the
  metadata had a thumbnail URL and the image fetch succeeded.
\<close>

theorem embed_presence:
  assumes "get_user_tweets env = Inr (latest # rest)" and "prev \<noteq> Some (tw_id latest)"
    and "fix_utm_source (first_url latest) = Some url" and "url \<noteq> []"
  shows "(\<not> thumbnail_obtained env url \<longrightarrow>
            publish_calls (snd (loop_iteration env prev)) = [(sanitize (tw_text latest), None)]) \<and>
         (fetched_thumbnail env url = Some (md, img) \<and> upload_blob env img = Inr blob \<longrightarrow>
            publish_calls (snd (loop_iteration env prev)) =
              [(sanitize (tw_text latest),
                Some \<lparr>ext_title = md_title md, ext_description = md_description md,
                      ext_uri = url, ext_thumb = blob\<rparr>)]) \<and>
         (fetched_thumbnail env url = Some (md, img) \<and> upload_blob env img = Inl e \<longrightarrow>
            publish_calls (snd (loop_iteration env prev)) = []) \<and>
         (\<forall>t m. (t, m) \<in> set (publish_calls (snd (loop_iteration env prev))) \<longrightarrow>
            t = sanitize (tw_text latest) \<and> (m \<noteq> None \<longleftrightarrow> thumbnail_obtained env url))"
proof -
  have a: "publish_calls (snd (loop_iteration env prev)) = [(sanitize (tw_text latest), None)]"
    if "\<not> thumbnail_obtained env url"
  proof -
    from that have "fetched_thumbnail env url = None"
      unfolding thumbnail_obtained_def by blast
    with assms(4) have "fst (build_embed env (Some url)) = Inr None" by (rule build_embed_absent)
    with assms(3) have "fst (build_embed env (fix_utm_source (first_url latest))) = Inr None" by simp
    with assms(1,2) show ?thesis by (rule iteration_calls_sent)
  qed
  have b: "publish_calls (snd (loop_iteration env prev)) =
              [(sanitize (tw_text latest),
                Some \<lparr>ext_title = md_title md', ext_description = md_description md',
                      ext_uri = url, ext_thumb = blob'\<rparr>)]"
    if "fetched_thumbnail env url = Some (md', img')" and "upload_blob env img' = Inr blob'"
    for md' img' blob'
  proof -
    from build_embed_present[OF assms(4) that(1)] that(2) assms(3)
    have "fst (build_embed env (fix_utm_source (first_url latest))) =
        Inr (Some \<lparr>ext_title = md_title md', ext_description = md_description md',
                   ext_uri = url, ext_thumb = blob'\<rparr>)" by simp
    with assms(1,2) show ?thesis by (rule iteration_calls_sent)
  qed
  have c: "publish_calls (snd (loop_iteration env prev)) = []"
    if "fetched_thumbnail env url = Some (md', img')" and "upload_blob env img' = Inl e'"
    for md' img' e'
  proof -
    from build_embed_present[OF assms(4) that(1)] that(2) assms(3)
    have "fst (build_embed env (fix_utm_source (first_url latest))) = Inl e'" by simp
    with assms(1,2) show ?thesis by (rule iteration_calls_error)
  qed
  have d: "t = sanitize (tw_text latest) \<and> (m \<noteq> None \<longleftrightarrow> thumbnail_obtained env url)"
    if tm: "(t, m) \<in> set (publish_calls (snd (loop_iteration env prev)))" for t m
  proof (cases "fetched_thumbnail env url")
    case None
    then have "\<not> thumbnail_obtained env url" unfolding thumbnail_obtained_def by blast
    with a tm show ?thesis by simp
  next
    case (Some p)
    then obtain md' img' where p: "fetched_thumbnail env url = Some (md', img')" by (cases p) auto
    then have o: "thumbnail_obtained env url" unfolding thumbnail_obtained_def by blast
    show ?thesis
    proof (cases "upload_blob env img'")
      case (Inl e')
      with c p tm show ?thesis by simp
    next
      case (Inr blob')
      with b[OF p Inr] tm o show ?thesis by simp
    qed
  qed
  from a b c d show ?thesis by blast
qed

section \<open>The scenario, evaluated\<close>

lemma scenario_url:
  "fix_utm_source (first_url scenario_tweet) = Some (py ''https://example.com/a?utm_source=bluesky'')"
  by (simp add: first_url_def scenario_tweet_def fix_utm_source_def utm_twitter_val utm_bluesky_val py_def)

lemma scenario_metadata:
  "get_metadata scenario_session (\<lambda>chunk. Inr scenario_tree) (py ''https://example.com/a?utm_source=bluesky'')
     = (Some \<lparr>md_title = py ''Ex'', md_description = py ''D'',
               md_thumbnail = Some (py ''http://img/x.png'')\<rparr>, [])"
  by (simp add: get_metadata_def extract_metadata_def findtext_title_def xpath_meta_content_def
      scenario_tree_def scenario_session_def ok_response_def List.map_filter_def py_def)

lemma scenario_image:
  "fetch_image_to_memory scenario_session (py ''http://img/x.png'') = (Some [137, 80], [])"
  by (simp add: fetch_image_to_memory_def scenario_session_def ok_response_def py_def)

lemma scenario_thumbnail:
  "fetched_thumbnail scenario_env (py ''https://example.com/a?utm_source=bluesky'') =
     Some (\<lparr>md_title = py ''Ex'', md_description = py ''D'',
            md_thumbnail = Some (py ''http://img/x.png'')\<rparr>, [137, 80])"
  "fetched_thumbnail upload_fails_env (py ''https://example.com/a?utm_source=bluesky'') =
     Some (\<lparr>md_title = py ''Ex'', md_description = py ''D'',
            md_thumbnail = Some (py ''http://img/x.png'')\<rparr>, [137, 80])"
  "fetched_thumbnail post_fails_env (py ''https://example.com/a?utm_source=bluesky'') =
     Some (\<lparr>md_title = py ''Ex'', md_description = py ''D'',
            md_thumbnail = Some (py ''http://img/x.png'')\<rparr>, [137, 80])"
  by (simp_all add: fetched_thumbnail_def scenario_env_def upload_fails_env_def post_fails_env_def
       scenario_metadata scenario_image) (simp_all add: py_def)

lemma no_page_thumbnail:
  "\<not> thumbnail_obtained no_page_env (py ''https://example.com/a?utm_source=bluesky'')"
  by (simp add: thumbnail_obtained_def fetched_thumbnail_def no_page_env_def scenario_env_def
      get_metadata_def not_found_session_def)

lemma env_tweets:
  "get_user_tweets scenario_env = Inr [scenario_tweet]"
  "get_user_tweets no_page_env = Inr [scenario_tweet]"
  "get_user_tweets upload_fails_env = Inr [scenario_tweet]"
  "get_user_tweets post_fails_env = Inr [scenario_tweet]"
  by (simp_all add: scenario_env_def no_page_env_def upload_fails_env_def post_fails_env_def)

lemma scenario_text: "sanitize (tw_text scenario_tweet) = py ''Check this out''"
  by (simp add: scenario_tweet_def sanitize_one_link)


text \<open>
  C2 at the scenario (an embed), at the scenario with a page that is not found (no
  embed, the text is sent) and at the scenario with a failing upload (nothing is sent).
\<close>

theorem embed_presence_witness:
  "publish_calls (snd (loop_iteration scenario_env None)) =
     [(py ''Check this out'',
       Some \<lparr>ext_title = py ''Ex'', ext_description = py ''D'',
             ext_uri = py ''https://example.com/a?utm_source=bluesky'', ext_thumb = BlobRef 1\<rparr>)] \<and>
   publish_calls (snd (loop_iteration no_page_env None)) = [(py ''Check this out'', None)] \<and>
   publish_calls (snd (loop_iteration upload_fails_env None)) = []"
proof -
  let ?u = "py ''https://example.com/a?utm_source=bluesky''"
  let ?md = "\<lparr>md_title = py ''Ex'', md_description = py ''D'',
            md_thumbnail = Some (py ''http://img/x.png'')\<rparr>"
  have ne: "?u \<noteq> []" by (simp add: py_def)
  have new: "None \<noteq> Some (tw_id scenario_tweet)" by simp
  have up1: "upload_blob scenario_env [137, 80] = Inr (BlobRef 1)"
    by (simp add: scenario_env_def)
  have up2: "upload_blob upload_fails_env [137, 80] = Inl (Exn (py ''upload failed''))"
    by (simp add: upload_fails_env_def)
  note ep1 = embed_presence[OF env_tweets(1) new scenario_url ne,
      where md = ?md and img = "[137, 80]" and blob = "BlobRef 1"]
  have h1: "fetched_thumbnail scenario_env ?u = Some (?md, [137, 80]) \<and>
      upload_blob scenario_env [137, 80] = Inr (BlobRef 1)"
    using scenario_thumbnail(1) up1 by (rule conjI)
  have 1: "publish_calls (snd (loop_iteration scenario_env None)) =
     [(sanitize (tw_text scenario_tweet),
       Some \<lparr>ext_title = md_title ?md, ext_description = md_description ?md,
             ext_uri = ?u, ext_thumb = BlobRef 1\<rparr>)]"
    using ep1[THEN conjunct2, THEN conjunct1] h1 by (rule mp)
  note ep2 = embed_presence[OF env_tweets(2) new scenario_url ne]
  have 2: "publish_calls (snd (loop_iteration no_page_env None)) = [(sanitize (tw_text scenario_tweet), None)]"
    using ep2[THEN conjunct1] no_page_thumbnail by (rule mp)
  note ep3 = embed_presence[OF env_tweets(3) new scenario_url ne,
      where md = ?md and img = "[137, 80]" and e = "Exn (py ''upload failed'')"]
  have h3: "fetched_thumbnail upload_fails_env ?u = Some (?md, [137, 80]) \<and>
      upload_blob upload_fails_env [137, 80] = Inl (Exn (py ''upload failed''))"
    using scenario_thumbnail(2) up2 by (rule conjI)
  have 3: "publish_calls (snd (loop_iteration upload_fails_env None)) = []"
    using ep3[THEN conjunct2, THEN conjunct2, THEN conjunct1] h3 by (rule mp)
  have m: "md_title ?md = py ''Ex''" "md_description ?md = py ''D''" by simp_all
  from 1 have p1: "publish_calls (snd (loop_iteration scenario_env None)) =
     [(py ''Check this out'',
       Some \<lparr>ext_title = py ''Ex'', ext_description = py ''D'',
             ext_uri = ?u, ext_thumb = BlobRef 1\<rparr>)]"
    by (simp only: m scenario_text)
  from 2 have p2: "publish_calls (snd (loop_iteration no_page_env None)) = [(py ''Check this out'', None)]"
    by (simp only: scenario_text)
  from p1 p2 3 show ?thesis by (intro conjI)
qed

section \<open>The state of a relay\<close>

lemma iteration_state_cases:
  "fst (loop_iteration env prev) = prev \<and> posted_count (snd (loop_iteration env prev)) = 0 \<or>
   (\<exists>latest rest m ev.
      get_user_tweets env = Inr (latest # rest) \<and> prev \<noteq> Some (tw_id latest) \<and>
      build_embed env (fix_utm_source (first_url latest)) = (Inr m, ev) \<and>
      send_post env (sanitize (tw_text latest)) m = Inr () \<and>
      fst (loop_iteration env prev) = Some (tw_id latest) \<and>
      publish_calls (snd (loop_iteration env prev)) = [(sanitize (tw_text latest), m)] \<and>
      posted_count (snd (loop_iteration env prev)) = 1)"
proof (cases "get_user_tweets env")
  case (Inl e)
  then show ?thesis by (simp add: iteration_fetch_error posted_count_simps)
next
  case (Inr tweets)
  show ?thesis
  proof (cases tweets)
    case Nil
    with Inr show ?thesis by (simp add: iteration_no_tweets posted_count_simps)
  next
    case (Cons latest rest)
    with Inr have g: "get_user_tweets env = Inr (latest # rest)" by simp
    show ?thesis
    proof (cases "prev = Some (tw_id latest)")
      case True
      with g show ?thesis by (simp add: iteration_same_tweet posted_count_simps)
    next
      case False
      obtain r ev where b: "build_embed env (fix_utm_source (first_url latest)) = (r, ev)"
        by (cases "build_embed env (fix_utm_source (first_url latest))")
      from build_embed_quiet[of env "fix_utm_source (first_url latest)"] b
      have q: "publish_calls ev = []" "posted_count ev = 0" by simp_all
      show ?thesis
      proof (cases r)
        case (Inl e)
        with b have "fst (build_embed env (fix_utm_source (first_url latest))) = Inl e" by simp
        from iteration_calls_error(2,3)[OF g False this] show ?thesis by simp
      next
        case (Inr m)
        with b have b': "build_embed env (fix_utm_source (first_url latest)) = (Inr m, ev)" by simp
        show ?thesis
        proof (cases "send_post env (sanitize (tw_text latest)) m")
          case (Inl e)
          from iteration_post_error[OF g False b' Inl] q show ?thesis
            by (simp add: posted_count_simps)
        next
          case (Inr u)
          then have s: "send_post env (sanitize (tw_text latest)) m = Inr ()" by simp
          from iteration_posted[OF g False b' s] q
          have "fst (loop_iteration env prev) = Some (tw_id latest)"
            "publish_calls (snd (loop_iteration env prev)) = [(sanitize (tw_text latest), m)]"
            "posted_count (snd (loop_iteration env prev)) = 1"
            by (simp_all add: publish_calls_simps posted_count_simps)
          with g False b' s show ?thesis by blast
        qed
      qed
    qed
  qed
qed

lemma env_embed:
  "build_embed scenario_env (fix_utm_source (first_url scenario_tweet)) =
    (Inr (Some \<lparr>ext_title = py ''Ex'', ext_description = py ''D'',
        ext_uri = py ''https://example.com/a?utm_source=bluesky'', ext_thumb = BlobRef 1\<rparr>),
     [UploadBlob [137, 80]])"
  "build_embed post_fails_env (fix_utm_source (first_url scenario_tweet)) =
    (Inr (Some \<lparr>ext_title = py ''Ex'', ext_description = py ''D'',
        ext_uri = py ''https://example.com/a?utm_source=bluesky'', ext_thumb = BlobRef 1\<rparr>),
     [UploadBlob [137, 80]])"
  "build_embed upload_fails_env (fix_utm_source (first_url scenario_tweet)) =
    (Inl (Exn (py ''upload failed'')), [UploadBlob [137, 80]])"
  by (simp_all add: scenario_url build_embed_def scenario_env_def post_fails_env_def
      upload_fails_env_def scenario_metadata scenario_image)
    (simp_all add: py_def)

lemma env_send:
  "send_post scenario_env t m = Inr ()"
  "send_post post_fails_env t m = Inl (Exn (py ''post failed''))"
  by (simp_all add: scenario_env_def post_fails_env_def)

lemma scenario_short: "\<not> length (clean_text (tw_text scenario_tweet)) > BLUESKY_LIMIT"
  by (simp add: scenario_tweet_def clean_text_def py_strip_def py_lstrip_def py_rstrip_def
      py_def SHORT_URL_PATTERN_match_def alnum_def is_space_def BLUESKY_LIMIT_def)

text \<open>
  Claim C4. The state of a relay is \<open>previous_tweet_id\<close> alone. A pass changes it
  only if it fetched a tweet and its one call of \<open>send_post\<close>, with the sanitised text
  of that tweet, returned; the new value is that tweet's identifier. When \<open>send_post\<close>
  raises, the state is as before, \<open>send_post\<close> was called once, and the pass ends
  with the logged error and the sleep of 60 seconds. The next pass starts from the
  state this one left.
\<close>

theorem state_update_atomicity:
  "(fst (loop_iteration env prev) \<noteq> prev \<longrightarrow>
      (\<exists>latest rest m.
         get_user_tweets env = Inr (latest # rest) \<and>
         send_post env (sanitize (tw_text latest)) m = Inr () \<and>
         publish_calls (snd (loop_iteration env prev)) = [(sanitize (tw_text latest), m)] \<and>
         fst (loop_iteration env prev) = Some (tw_id latest))) \<and>
   (get_user_tweets env = Inr (latest # rest) \<and> prev \<noteq> Some (tw_id latest) \<and>
    fst (build_embed env (fix_utm_source (first_url latest))) = Inr m \<and>
    send_post env (sanitize (tw_text latest)) m = Inl e \<longrightarrow>
      fst (loop_iteration env prev) = prev \<and>
      publish_calls (snd (loop_iteration env prev)) = [(sanitize (tw_text latest), m)] \<and>
      (\<exists>ev. snd (loop_iteration env prev) =
         ev @ [SendPost (sanitize (tw_text latest)) m, Print (PostError e), Sleep 60])) \<and>
   run_loop (env # envs) prev =
     (fst (run_loop envs (fst (loop_iteration env prev))),
      snd (loop_iteration env prev) @ snd (run_loop envs (fst (loop_iteration env prev))))"
proof (intro conjI impI)
  assume "fst (loop_iteration env prev) \<noteq> prev"
  with iteration_state_cases[of env prev]
  show "\<exists>latest rest m.
         get_user_tweets env = Inr (latest # rest) \<and>
         send_post env (sanitize (tw_text latest)) m = Inr () \<and>
         publish_calls (snd (loop_iteration env prev)) = [(sanitize (tw_text latest), m)] \<and>
         fst (loop_iteration env prev) = Some (tw_id latest)"
    by blast
next
  assume a: "get_user_tweets env = Inr (latest # rest) \<and> prev \<noteq> Some (tw_id latest) \<and>
    fst (build_embed env (fix_utm_source (first_url latest))) = Inr m \<and>
    send_post env (sanitize (tw_text latest)) m = Inl e"
  then obtain ev where b: "build_embed env (fix_utm_source (first_url latest)) = (Inr m, ev)"
    by (cases "build_embed env (fix_utm_source (first_url latest))") auto
  from a have g: "get_user_tweets env = Inr (latest # rest)" and n: "prev \<noteq> Some (tw_id latest)"
    and s: "send_post env (sanitize (tw_text latest)) m = Inl e" by simp_all
  note it = iteration_post_error[OF g n b s]
  from it show "fst (loop_iteration env prev) = prev" by simp
  from a show "publish_calls (snd (loop_iteration env prev)) = [(sanitize (tw_text latest), m)]"
    by (intro iteration_calls_sent) simp_all
  from it have "snd (loop_iteration env prev) =
      (Print (NewTweet (take 50 (tw_text latest))) # ev @
        (if length (clean_text (tw_text latest)) > BLUESKY_LIMIT
         then [Print (TooLong (length (clean_text (tw_text latest))))] else [])) @
      [SendPost (sanitize (tw_text latest)) m, Print (PostError e), Sleep 60]" by simp
  then show "\<exists>ev. snd (loop_iteration env prev) =
         ev @ [SendPost (sanitize (tw_text latest)) m, Print (PostError e), Sleep 60]"
    by (rule exI)
next
  show "run_loop (env # envs) prev =
     (fst (run_loop envs (fst (loop_iteration env prev))),
      snd (loop_iteration env prev) @ snd (run_loop envs (fst (loop_iteration env prev))))"
    by (simp add: split_beta)
qed


text \<open>C4 at the scenario with a failing post (state unchanged) and at the scenario (state set).\<close>

theorem state_update_atomicity_witness:
  "fst (loop_iteration post_fails_env None) = None \<and>
   publish_calls (snd (loop_iteration post_fails_env None)) =
     [(sanitize (tw_text scenario_tweet),
       Some \<lparr>ext_title = py ''Ex'', ext_description = py ''D'',
             ext_uri = py ''https://example.com/a?utm_source=bluesky'', ext_thumb = BlobRef 1\<rparr>)] \<and>
   fst (loop_iteration scenario_env None) \<noteq> None \<and>
   (\<exists>latest rest m.
      get_user_tweets scenario_env = Inr (latest # rest) \<and>
      send_post scenario_env (sanitize (tw_text latest)) m = Inr () \<and>
      publish_calls (snd (loop_iteration scenario_env None)) = [(sanitize (tw_text latest), m)] \<and>
      fst (loop_iteration scenario_env None) = Some (tw_id latest))"
proof -
  let ?emb = "Some \<lparr>ext_title = py ''Ex'', ext_description = py ''D'',
             ext_uri = py ''https://example.com/a?utm_source=bluesky'', ext_thumb = BlobRef 1\<rparr>"
  have new: "None \<noteq> Some (tw_id scenario_tweet)" by simp
  have h: "get_user_tweets post_fails_env = Inr (scenario_tweet # []) \<and>
      None \<noteq> Some (tw_id scenario_tweet) \<and>
      fst (build_embed post_fails_env (fix_utm_source (first_url scenario_tweet))) = Inr ?emb \<and>
      send_post post_fails_env (sanitize (tw_text scenario_tweet)) ?emb = Inl (Exn (py ''post failed''))"
    by (simp add: env_tweets env_embed env_send)
  note a = state_update_atomicity[of post_fails_env None scenario_tweet "[]" ?emb "Exn (py ''post failed'')"]
  have p: "fst (loop_iteration post_fails_env None) = None \<and>
      publish_calls (snd (loop_iteration post_fails_env None)) = [(sanitize (tw_text scenario_tweet), ?emb)] \<and>
      (\<exists>ev. snd (loop_iteration post_fails_env None) =
         ev @ [SendPost (sanitize (tw_text scenario_tweet)) ?emb, Print (PostError (Exn (py ''post failed''))), Sleep 60])"
    using a[THEN conjunct2, THEN conjunct1] h by (rule mp)
  have c: "fst (loop_iteration scenario_env None) \<noteq> None"
    using iteration_posted[OF env_tweets(1) new env_embed(1) env_send(1)] by simp
  note b = state_update_atomicity[of scenario_env None]
  have q: "\<exists>latest rest m.
      get_user_tweets scenario_env = Inr (latest # rest) \<and>
      send_post scenario_env (sanitize (tw_text latest)) m = Inr () \<and>
      publish_calls (snd (loop_iteration scenario_env None)) = [(sanitize (tw_text latest), m)] \<and>
      fst (loop_iteration scenario_env None) = Some (tw_id latest)"
    using b[THEN conjunct1] c by (rule mp)
  from p c q show ?thesis by blast
qed

section \<open>Repeated passes over the same tweet\<close>

lemma iteration_relayed:
  assumes "fetches_only p env"
  shows "fst (loop_iteration env (Some p)) = Some p \<and>
         publish_calls (snd (loop_iteration env (Some p))) = [] \<and>
         posted_count (snd (loop_iteration env (Some p))) = 0"
proof (cases "get_user_tweets env")
  case (Inl e)
  then show ?thesis by (simp add: iteration_fetch_error publish_calls_simps posted_count_simps)
next
  case (Inr tweets)
  show ?thesis
  proof (cases tweets)
    case Nil
    with Inr show ?thesis by (simp add: iteration_no_tweets publish_calls_simps posted_count_simps)
  next
    case (Cons latest rest)
    with Inr assms have "get_user_tweets env = Inr (latest # rest)" "Some p = Some (tw_id latest)"
      by (simp_all add: fetches_only_def)
    then have "loop_iteration env (Some p) = (Some p, [Sleep 60])" by (rule iteration_same_tweet)
    then show ?thesis by (simp add: publish_calls_simps posted_count_simps)
  qed
qed

lemma run_loop_relayed:
  "\<forall>env\<in>set envs. fetches_only p env \<Longrightarrow>
     fst (run_loop envs (Some p)) = Some p \<and>
     publish_calls (snd (run_loop envs (Some p))) = [] \<and>
     posted_count (snd (run_loop envs (Some p))) = 0"
proof (induction envs)
  case Nil
  then show ?case by (simp add: publish_calls_simps posted_count_simps)
next
  case (Cons env envs)
  then have "fetches_only p env" by simp
  from iteration_relayed[OF this] obtain ev where
    it: "loop_iteration env (Some p) = (Some p, ev)" "publish_calls ev = []" "posted_count ev = 0"
    by (cases "loop_iteration env (Some p)") auto
  from Cons have "fst (run_loop envs (Some p)) = Some p \<and>
     publish_calls (snd (run_loop envs (Some p))) = [] \<and>
     posted_count (snd (run_loop envs (Some p))) = 0" by simp
  with it show ?case by (simp add: split_beta publish_calls_simps posted_count_simps)
qed

lemma iteration_fixed_post:
  assumes "fetches_only p env"
  shows "fst (loop_iteration env st) = st \<and> posted_count (snd (loop_iteration env st)) = 0 \<or>
         fst (loop_iteration env st) = Some p \<and> posted_count (snd (loop_iteration env st)) = 1"
  using iteration_state_cases[of env st] assms by (auto simp: fetches_only_def)

lemma run_loop_fixed_post:
  "\<forall>env\<in>set envs. fetches_only p env \<Longrightarrow>
     posted_count (snd (run_loop envs st)) \<le> 1 \<and>
     (fst (run_loop envs st) = st \<or> fst (run_loop envs st) = Some p)"
proof (induction envs arbitrary: st)
  case Nil
  then show ?case by (simp add: posted_count_simps)
next
  case (Cons env envs)
  then have f: "fetches_only p env" and r: "\<forall>env\<in>set envs. fetches_only p env" by simp_all
  obtain st' ev where it: "loop_iteration env st = (st', ev)" by (cases "loop_iteration env st")
  from iteration_fixed_post[OF f, of st] it
  consider "st' = st" "posted_count ev = 0" | "st' = Some p" "posted_count ev = 1" by auto
  then show ?case
  proof cases
    case 1
    from Cons.IH[OF r, of st] 1 it show ?thesis by (simp add: split_beta posted_count_simps)
  next
    case 2
    from run_loop_relayed[OF r] 2 it show ?thesis by (simp add: split_beta posted_count_simps)
  qed
qed

lemma post_fails_iteration:
  "loop_iteration post_fails_env None =
     (None,
      [Print (NewTweet (take 50 (tw_text scenario_tweet))), UploadBlob [137, 80],
       SendPost (sanitize (tw_text scenario_tweet))
         (Some \<lparr>ext_title = py ''Ex'', ext_description = py ''D'',
             ext_uri = py ''https://example.com/a?utm_source=bluesky'', ext_thumb = BlobRef 1\<rparr>),
       Print (PostError (Exn (py ''post failed''))), Sleep 60])"
proof -
  have new: "None \<noteq> Some (tw_id scenario_tweet)" by simp
  from iteration_post_error[OF env_tweets(4) new env_embed(2) env_send(2)] scenario_short
  show ?thesis by simp
qed

lemma scenario_iteration:
  "loop_iteration scenario_env None =
     (Some (tw_id scenario_tweet),
      [Print (NewTweet (take 50 (tw_text scenario_tweet))), UploadBlob [137, 80],
       SendPost (sanitize (tw_text scenario_tweet))
         (Some \<lparr>ext_title = py ''Ex'', ext_description = py ''D'',
             ext_uri = py ''https://example.com/a?utm_source=bluesky'', ext_thumb = BlobRef 1\<rparr>),
       Print Posted, Sleep 60])"
proof -
  have new: "None \<noteq> Some (tw_id scenario_tweet)" by simp
  from iteration_posted[OF env_tweets(1) new env_embed(1) env_send(1)] scenario_short
  show ?thesis by simp
qed

lemma env_fetches:
  "fetches_only (tw_id scenario_tweet) scenario_env"
  "fetches_only (tw_id scenario_tweet) post_fails_env"
  by (simp_all add: fetches_only_def env_tweets)

text \<open>
  Claim C3, as the code has it. A pass that fetches the tweet whose identifier is the
  stored one does nothing but sleep. Over any number of passes in which the latest
  tweet, when one is fetched, is always the tweet \<open>p\<close>: at most one post is logged as
  posted, the state stays what it was or becomes \<open>p\<close>, and once the state is \<open>p\<close>
  there is no further call of \<open>send_post\<close>.
\<close>

theorem dedup_idempotence:
  "(get_user_tweets env = Inr (latest # rest) \<and> prev = Some (tw_id latest) \<longrightarrow>
      loop_iteration env prev = (prev, [Sleep 60])) \<and>
   ((\<forall>env\<in>set envs. fetches_only p env) \<longrightarrow>
      posted_count (snd (run_loop envs st)) \<le> 1 \<and>
      (fst (run_loop envs st) = st \<or> fst (run_loop envs st) = Some p)) \<and>
   ((\<forall>env\<in>set envs. fetches_only p env) \<longrightarrow>
      fst (run_loop envs (Some p)) = Some p \<and>
      publish_calls (snd (run_loop envs (Some p))) = [])"
  using iteration_same_tweet run_loop_fixed_post run_loop_relayed by blast

text \<open>
  C3 as it was stated allows one call of \<open>send_post\<close> in all. While \<open>send_post\<close>
  raises, the state is not set and every pass calls it again: two passes, two calls.
\<close>

theorem repeated_publish_counterexample:
  "fetches_only (tw_id scenario_tweet) post_fails_env \<and>
   length (publish_calls (snd (run_loop [post_fails_env, post_fails_env] None))) = 2"
  by (simp add: env_fetches post_fails_iteration publish_calls_simps)

text \<open>C3 at passes over the scenario's tweet, the first with a failing post.\<close>

theorem dedup_idempotence_witness:
  "loop_iteration scenario_env (Some (tw_id scenario_tweet)) = (Some (tw_id scenario_tweet), [Sleep 60]) \<and>
   posted_count (snd (run_loop [post_fails_env, scenario_env, scenario_env] None)) \<le> 1 \<and>
   publish_calls (snd (run_loop [scenario_env, post_fails_env] (Some (tw_id scenario_tweet)))) = []"
proof -
  have a: "get_user_tweets scenario_env = Inr (scenario_tweet # []) \<and>
      Some (tw_id scenario_tweet) = Some (tw_id scenario_tweet)"
    by (simp add: env_tweets)
  have f1: "\<forall>env\<in>set [post_fails_env, scenario_env, scenario_env]. fetches_only (tw_id scenario_tweet) env"
    by (simp add: env_fetches)
  have f2: "\<forall>env\<in>set [scenario_env, post_fails_env]. fetches_only (tw_id scenario_tweet) env"
    by (simp add: env_fetches)
  have 1: "loop_iteration scenario_env (Some (tw_id scenario_tweet)) = (Some (tw_id scenario_tweet), [Sleep 60])"
    using dedup_idempotence[of scenario_env scenario_tweet "[]" "Some (tw_id scenario_tweet)",
        THEN conjunct1] a by (rule mp)
  have 2: "posted_count (snd (run_loop [post_fails_env, scenario_env, scenario_env] None)) \<le> 1 \<and>
      (fst (run_loop [post_fails_env, scenario_env, scenario_env] None) = None \<or>
       fst (run_loop [post_fails_env, scenario_env, scenario_env] None) = Some (tw_id scenario_tweet))"
    using dedup_idempotence[of _ _ _ _ "[post_fails_env, scenario_env, scenario_env]"
        "tw_id scenario_tweet" None, THEN conjunct2, THEN conjunct1] f1 by (rule mp)
  have 3: "fst (run_loop [scenario_env, post_fails_env] (Some (tw_id scenario_tweet))) = Some (tw_id scenario_tweet) \<and>
      publish_calls (snd (run_loop [scenario_env, post_fails_env] (Some (tw_id scenario_tweet)))) = []"
    using dedup_idempotence[of _ _ _ _ "[scenario_env, post_fails_env]"
        "tw_id scenario_tweet", THEN conjunct2, THEN conjunct2] f2 by (rule mp)
  from 1 2 3 show ?thesis by blast
qed

section \<open>Exceptions inside the loop\<close>

lemma try_block_raises:
  assumes "fst (try_block env prev) = Inl e"
  shows "get_user_tweets env = Inl e \<or>
         (\<exists>latest rest. get_user_tweets env = Inr (latest # rest) \<and> prev \<noteq> Some (tw_id latest) \<and>
            fst (build_embed env (fix_utm_source (first_url latest))) = Inl e)"
  using assms
  by (auto simp: try_block_def split: sum.splits list.splits if_splits prod.splits)

lemma iteration_raises:
  assumes "fst (try_block env prev) = Inl e"
  shows "fst (loop_iteration env prev) = prev"
    and "publish_calls (snd (loop_iteration env prev)) = []"
    and "\<exists>ev. snd (loop_iteration env prev) = ev @ [Print (CriticalLoopError e), Sleep 60]"
proof -
  from try_block_raises[OF assms]
  consider "get_user_tweets env = Inl e"
    | latest rest where "get_user_tweets env = Inr (latest # rest)" "prev \<noteq> Some (tw_id latest)"
        "fst (build_embed env (fix_utm_source (first_url latest))) = Inl e"
    by blast
  then have "fst (loop_iteration env prev) = prev \<and>
      publish_calls (snd (loop_iteration env prev)) = [] \<and>
      (\<exists>ev. snd (loop_iteration env prev) = ev @ [Print (CriticalLoopError e), Sleep 60])"
  proof cases
    case 1
    then have "loop_iteration env prev = (prev, [] @ [Print (CriticalLoopError e), Sleep 60])"
      by (simp add: iteration_fetch_error)
    then show ?thesis by (auto simp: publish_calls_simps)
  next
    case 2
    obtain ev where b: "build_embed env (fix_utm_source (first_url latest)) = (Inl e, ev)"
      using 2(3) by (cases "build_embed env (fix_utm_source (first_url latest))") auto
    from iteration_embed_error[OF 2(1,2) b]
    have "snd (loop_iteration env prev) =
        (Print (NewTweet (take 50 (tw_text latest))) # ev) @ [Print (CriticalLoopError e), Sleep 60]"
      by simp
    then have "\<exists>ev. snd (loop_iteration env prev) = ev @ [Print (CriticalLoopError e), Sleep 60]"
      by (rule exI)
    with iteration_calls_error(1,2)[OF 2] show ?thesis by simp
  qed
  then show "fst (loop_iteration env prev) = prev"
    and "publish_calls (snd (loop_iteration env prev)) = []"
    and "\<exists>ev. snd (loop_iteration env prev) = ev @ [Print (CriticalLoopError e), Sleep 60]"
    by simp_all
qed

lemma try_block_post_error:
  assumes "get_user_tweets env = Inr (latest # rest)" and "prev \<noteq> Some (tw_id latest)"
    and "fst (build_embed env (fix_utm_source (first_url latest))) = Inr m"
    and "send_post env (sanitize (tw_text latest)) m = Inl e"
  shows "fst (try_block env prev) = Inr Fallthrough"
    and "Print (PostError e) \<in> set (snd (loop_iteration env prev))"
proof -
  obtain ev where b: "build_embed env (fix_utm_source (first_url latest)) = (Inr m, ev)"
    using assms(3) by (cases "build_embed env (fix_utm_source (first_url latest))") auto
  from assms(1,2,4) b show "fst (try_block env prev) = Inr Fallthrough"
    by (simp add: try_block_def sanitize_def)
  from iteration_post_error[OF assms(1,2) b assms(4)]
  show "Print (PostError e) \<in> set (snd (loop_iteration env prev))" by simp
qed

lemma upload_fails_try: "fst (try_block upload_fails_env None) = Inl (Exn (py ''upload failed''))"
  by (simp add: try_block_def env_tweets env_embed)

lemma ok_start_login: "fst (login ok_start) = Inr ()"
  by (simp add: login_def ok_start_def)

text \<open>
  Claim C8. When the body of the \<open>try\<close> raises (the fetch of the tweets or the
  upload of the thumbnail), the handler of the loop prints the error and sleeps; the
  state is as before and nothing was sent. When \<open>send_post\<close> raises, its own handler
  prints the error and the body ends normally. Once a relay has logged in and found
  its user, it is still in its loop after any passes: no pass raises out of the loop
  or ends the task.
\<close>

theorem cycle_error_containment:
  "(fst (try_block env prev) = Inl e \<longrightarrow>
      fst (loop_iteration env prev) = prev \<and>
      publish_calls (snd (loop_iteration env prev)) = [] \<and>
      (\<exists>ev. snd (loop_iteration env prev) = ev @ [Print (CriticalLoopError e), Sleep 60])) \<and>
   (get_user_tweets env = Inr (latest # rest) \<and> prev \<noteq> Some (tw_id latest) \<and>
    fst (build_embed env (fix_utm_source (first_url latest))) = Inr m \<and>
    send_post env (sanitize (tw_text latest)) m = Inl e \<longrightarrow>
      fst (try_block env prev) = Inr Fallthrough \<and>
      Print (PostError e) \<in> set (snd (loop_iteration env prev))) \<and>
   (fst (login start) = Inr () \<and> get_user_by_screen_name start = Inr (Some user_id) \<longrightarrow>
      (\<exists>ev. monitor_tweets start envs = Looping (fst (run_loop envs None)) ev))"
proof (intro conjI impI)
  assume "fst (try_block env prev) = Inl e"
  then show "fst (loop_iteration env prev) = prev"
    and "publish_calls (snd (loop_iteration env prev)) = []"
    and "\<exists>ev. snd (loop_iteration env prev) = ev @ [Print (CriticalLoopError e), Sleep 60]"
    by (rule iteration_raises)+
next
  assume a: "get_user_tweets env = Inr (latest # rest) \<and> prev \<noteq> Some (tw_id latest) \<and>
    fst (build_embed env (fix_utm_source (first_url latest))) = Inr m \<and>
    send_post env (sanitize (tw_text latest)) m = Inl e"
  then have g: "get_user_tweets env = Inr (latest # rest)" and n: "prev \<noteq> Some (tw_id latest)"
    and b: "fst (build_embed env (fix_utm_source (first_url latest))) = Inr m"
    and s: "send_post env (sanitize (tw_text latest)) m = Inl e" by simp_all
  from g n b s show "fst (try_block env prev) = Inr Fallthrough"
    by (rule try_block_post_error(1))
  from g n b s show "Print (PostError e) \<in> set (snd (loop_iteration env prev))"
    by (rule try_block_post_error(2))
next
  assume "fst (login start) = Inr () \<and> get_user_by_screen_name start = Inr (Some user_id)"
  then show "\<exists>ev. monitor_tweets start envs = Looping (fst (run_loop envs None)) ev"
    by (cases "login start") (auto simp: monitor_tweets_def split_beta)
qed


text \<open>C8 at a failing upload, a failing post, and a relay followed for three passes.\<close>

theorem cycle_error_containment_witness:
  "fst (loop_iteration upload_fails_env None) = None \<and>
   publish_calls (snd (loop_iteration upload_fails_env None)) = [] \<and>
   (\<exists>ev. snd (loop_iteration upload_fails_env None) =
      ev @ [Print (CriticalLoopError (Exn (py ''upload failed''))), Sleep 60]) \<and>
   fst (try_block post_fails_env None) = Inr Fallthrough \<and>
   Print (PostError (Exn (py ''post failed''))) \<in> set (snd (loop_iteration post_fails_env None)) \<and>
   (\<exists>ev. monitor_tweets ok_start [upload_fails_env, post_fails_env, scenario_env] =
      Looping (fst (run_loop [upload_fails_env, post_fails_env, scenario_env] None)) ev)"
proof -
  let ?emb = "Some \<lparr>ext_title = py ''Ex'', ext_description = py ''D'',
             ext_uri = py ''https://example.com/a?utm_source=bluesky'', ext_thumb = BlobRef 1\<rparr>"
  note c1 = cycle_error_containment[of upload_fails_env None "Exn (py ''upload failed'')", THEN conjunct1]
  have p1: "fst (loop_iteration upload_fails_env None) = None \<and>
      publish_calls (snd (loop_iteration upload_fails_env None)) = [] \<and>
      (\<exists>ev. snd (loop_iteration upload_fails_env None) =
         ev @ [Print (CriticalLoopError (Exn (py ''upload failed''))), Sleep 60])"
    using c1 upload_fails_try by (rule mp)
  have h: "get_user_tweets post_fails_env = Inr (scenario_tweet # []) \<and>
      None \<noteq> Some (tw_id scenario_tweet) \<and>
      fst (build_embed post_fails_env (fix_utm_source (first_url scenario_tweet))) = Inr ?emb \<and>
      send_post post_fails_env (sanitize (tw_text scenario_tweet)) ?emb = Inl (Exn (py ''post failed''))"
    by (simp add: env_tweets env_embed env_send)
  note c2 = cycle_error_containment[of post_fails_env None "Exn (py ''post failed'')" scenario_tweet "[]" ?emb,
      THEN conjunct2, THEN conjunct1]
  have p2: "fst (try_block post_fails_env None) = Inr Fallthrough \<and>
      Print (PostError (Exn (py ''post failed''))) \<in> set (snd (loop_iteration post_fails_env None))"
    using c2 h by (rule mp)
  have s: "fst (login ok_start) = Inr () \<and> get_user_by_screen_name ok_start = Inr (Some (py ''42''))"
    by (simp add: ok_start_login) (simp add: ok_start_def)
  note c3 = cycle_error_containment[of _ _ _ _ _ _ ok_start "py ''42''"
      "[upload_fails_env, post_fails_env, scenario_env]", THEN conjunct2, THEN conjunct2]
  have p3: "\<exists>ev. monitor_tweets ok_start [upload_fails_env, post_fails_env, scenario_env] =
      Looping (fst (run_loop [upload_fails_env, post_fails_env, scenario_env] None)) ev"
    using c3 s by (rule mp)
  from p1 p2 p3 show ?thesis by blast
qed

section \<open>A failing upload\<close>

lemma build_embed_upload_error:
  "url \<noteq> [] \<Longrightarrow> fetched_thumbnail env url = Some (md, img) \<Longrightarrow> upload_blob env img = Inl e \<Longrightarrow>
     \<exists>ev. build_embed env (Some url) = (Inl e, ev @ [UploadBlob img])"
  by (auto simp: build_embed_def fetched_thumbnail_def
      split: option.splits prod.splits if_splits sum.splits)

lemma iteration_calls_latest:
  assumes "(t, m) \<in> set (publish_calls (snd (loop_iteration env prev)))"
  shows "\<exists>latest rest. get_user_tweets env = Inr (latest # rest) \<and> prev \<noteq> Some (tw_id latest) \<and>
           t = sanitize (tw_text latest)"
proof (cases "get_user_tweets env")
  case (Inl e)
  with assms show ?thesis by (simp add: iteration_fetch_error publish_calls_simps)
next
  case (Inr tweets)
  show ?thesis
  proof (cases tweets)
    case Nil
    with Inr assms show ?thesis by (simp add: iteration_no_tweets publish_calls_simps)
  next
    case (Cons latest rest)
    with Inr have g: "get_user_tweets env = Inr (latest # rest)" by simp
    show ?thesis
    proof (cases "prev = Some (tw_id latest)")
      case True
      with g assms show ?thesis by (simp add: iteration_same_tweet publish_calls_simps)
    next
      case False
      show ?thesis
      proof (cases "fst (build_embed env (fix_utm_source (first_url latest)))")
        case (Inl e)
        from iteration_calls_error(1)[OF g False Inl] assms show ?thesis by simp
      next
        case (Inr m')
        from iteration_calls_sent[OF g False Inr] assms have "t = sanitize (tw_text latest)" by simp
        with g False show ?thesis by blast
      qed
    qed
  qed
qed

lemma upload_fails_iteration:
  "loop_iteration upload_fails_env None =
     (None,
      [Print (NewTweet (take 50 (tw_text scenario_tweet))), UploadBlob [137, 80],
       Print (CriticalLoopError (Exn (py ''upload failed''))), Sleep 60])"
proof -
  have new: "None \<noteq> Some (tw_id scenario_tweet)" by simp
  from iteration_embed_error[OF env_tweets(3) new env_embed(3)] show ?thesis by simp
qed

lemma other_iteration:
  "publish_calls (snd (loop_iteration other_env None)) = [(sanitize (tw_text other_tweet), None)]"
proof -
  have g: "get_user_tweets other_env = Inr (other_tweet # [scenario_tweet])"
    by (simp add: other_env_def)
  have new: "None \<noteq> Some (tw_id other_tweet)" by simp
  have b: "fst (build_embed other_env (fix_utm_source (first_url other_tweet))) = Inr None"
    by (simp add: first_url_def other_tweet_def fix_utm_source_def build_embed_def)
  from g new b show ?thesis by (rule iteration_calls_sent)
qed

text \<open>
  Claim C10. Take a pass that finds a new tweet with a URL, obtains the metadata and
  the image, and in which \<open>upload_blob\<close> raises. The exception reaches the handler of
  the loop: after the upload the pass prints the error and sleeps, nothing is sent, not
  even the text, and the state is unchanged. In the next pass the tweet is sent if it
  is still the latest (and its embed can be built); if another tweet is the latest,
  whatever is sent is the text of that other tweet.
\<close>

theorem upload_failure_skips_cycle:
  "(get_user_tweets env = Inr (latest # rest) \<and> prev \<noteq> Some (tw_id latest) \<and>
    fix_utm_source (first_url latest) = Some url \<and> url \<noteq> [] \<and>
    fetched_thumbnail env url = Some (md, img) \<and> upload_blob env img = Inl e \<longrightarrow>
      fst (loop_iteration env prev) = prev \<and>
      publish_calls (snd (loop_iteration env prev)) = [] \<and>
      posted_count (snd (loop_iteration env prev)) = 0 \<and>
      (\<exists>ev. snd (loop_iteration env prev) =
         ev @ [UploadBlob img, Print (CriticalLoopError e), Sleep 60]) \<and>
      (get_user_tweets env' = Inr (latest # rest') \<and>
       fst (build_embed env' (fix_utm_source (first_url latest))) = Inr m \<longrightarrow>
         publish_calls (snd (run_loop [env, env'] prev)) = [(sanitize (tw_text latest), m)]) \<and>
      (get_user_tweets env' = Inr (other # rest') \<and> tw_id other \<noteq> tw_id latest \<longrightarrow>
         (\<forall>c\<in>set (publish_calls (snd (run_loop [env, env'] prev))).
            fst c = sanitize (tw_text other))))"
proof (intro impI)
  assume a: "get_user_tweets env = Inr (latest # rest) \<and> prev \<noteq> Some (tw_id latest) \<and>
    fix_utm_source (first_url latest) = Some url \<and> url \<noteq> [] \<and>
    fetched_thumbnail env url = Some (md, img) \<and> upload_blob env img = Inl e"
  then have g: "get_user_tweets env = Inr (latest # rest)" and n: "prev \<noteq> Some (tw_id latest)"
    and u: "fix_utm_source (first_url latest) = Some url" and ne: "url \<noteq> []"
    and f: "fetched_thumbnail env url = Some (md, img)" and up: "upload_blob env img = Inl e"
    by simp_all
  from build_embed_upload_error[OF ne f up] u obtain ev where
    b: "build_embed env (fix_utm_source (first_url latest)) = (Inl e, ev @ [UploadBlob img])"
    by auto
  then have b': "fst (build_embed env (fix_utm_source (first_url latest))) = Inl e" by simp
  note it = iteration_embed_error[OF g n b]
  have 1: "fst (loop_iteration env prev) = prev"
    and 2: "publish_calls (snd (loop_iteration env prev)) = []"
    and 3: "posted_count (snd (loop_iteration env prev)) = 0"
    by (rule iteration_calls_error[OF g n b'])+
  from it have "snd (loop_iteration env prev) =
      (Print (NewTweet (take 50 (tw_text latest))) # ev) @
      [UploadBlob img, Print (CriticalLoopError e), Sleep 60]" by simp
  then have 4: "\<exists>ev. snd (loop_iteration env prev) =
         ev @ [UploadBlob img, Print (CriticalLoopError e), Sleep 60]" by (rule exI)
  have run: "publish_calls (snd (run_loop [env, env'] prev)) =
      publish_calls (snd (loop_iteration env' prev))"
    using 1 2 by (simp add: split_beta publish_calls_simps)
  have 5: "publish_calls (snd (run_loop [env, env'] prev)) = [(sanitize (tw_text latest), m)]"
    if "get_user_tweets env' = Inr (latest # rest') \<and>
       fst (build_embed env' (fix_utm_source (first_url latest))) = Inr m"
    using that n run iteration_calls_sent[of env' latest rest' prev m] by simp
  have 6: "\<forall>c\<in>set (publish_calls (snd (run_loop [env, env'] prev))). fst c = sanitize (tw_text other)"
    if o: "get_user_tweets env' = Inr (other # rest') \<and> tw_id other \<noteq> tw_id latest"
  proof
    fix c assume "c \<in> set (publish_calls (snd (run_loop [env, env'] prev)))"
    then have "c \<in> set (publish_calls (snd (loop_iteration env' prev)))"
      by (simp only: run)
    then have "(fst c, snd c) \<in> set (publish_calls (snd (loop_iteration env' prev)))"
      by simp
    from iteration_calls_latest[OF this] o show "fst c = sanitize (tw_text other)" by auto
  qed
  from 1 2 3 4 5 6 show "fst (loop_iteration env prev) = prev \<and>
      publish_calls (snd (loop_iteration env prev)) = [] \<and>
      posted_count (snd (loop_iteration env prev)) = 0 \<and>
      (\<exists>ev. snd (loop_iteration env prev) =
         ev @ [UploadBlob img, Print (CriticalLoopError e), Sleep 60]) \<and>
      (get_user_tweets env' = Inr (latest # rest') \<and>
       fst (build_embed env' (fix_utm_source (first_url latest))) = Inr m \<longrightarrow>
         publish_calls (snd (run_loop [env, env'] prev)) = [(sanitize (tw_text latest), m)]) \<and>
      (get_user_tweets env' = Inr (other # rest') \<and> tw_id other \<noteq> tw_id latest \<longrightarrow>
         (\<forall>c\<in>set (publish_calls (snd (run_loop [env, env'] prev))).
            fst c = sanitize (tw_text other)))"
    by blast
qed


text \<open>C10 at the scenario with a failing upload, followed by the scenario or by a newer tweet.\<close>

theorem upload_failure_skips_cycle_witness:
  "fst (loop_iteration upload_fails_env None) = None \<and>
   publish_calls (snd (loop_iteration upload_fails_env None)) = [] \<and>
   publish_calls (snd (run_loop [upload_fails_env, scenario_env] None)) =
     [(sanitize (tw_text scenario_tweet),
       Some \<lparr>ext_title = py ''Ex'', ext_description = py ''D'',
             ext_uri = py ''https://example.com/a?utm_source=bluesky'', ext_thumb = BlobRef 1\<rparr>)] \<and>
   publish_calls (snd (run_loop [upload_fails_env, other_env] None)) \<noteq> [] \<and>
   fst (hd (publish_calls (snd (run_loop [upload_fails_env, other_env] None)))) =
     sanitize (tw_text other_tweet)"
proof -
  let ?u = "py ''https://example.com/a?utm_source=bluesky''"
  let ?md = "\<lparr>md_title = py ''Ex'', md_description = py ''D'',
            md_thumbnail = Some (py ''http://img/x.png'')\<rparr>"
  let ?emb = "Some \<lparr>ext_title = py ''Ex'', ext_description = py ''D'',
             ext_uri = ?u, ext_thumb = BlobRef 1\<rparr>"
  have h: "get_user_tweets upload_fails_env = Inr (scenario_tweet # []) \<and>
      None \<noteq> Some (tw_id scenario_tweet) \<and>
      fix_utm_source (first_url scenario_tweet) = Some ?u \<and> ?u \<noteq> [] \<and>
      fetched_thumbnail upload_fails_env ?u = Some (?md, [137, 80]) \<and>
      upload_blob upload_fails_env [137, 80] = Inl (Exn (py ''upload failed''))"
    by (simp add: env_tweets scenario_url scenario_thumbnail) (simp add: upload_fails_env_def py_def)
  note t1 = upload_failure_skips_cycle[of upload_fails_env scenario_tweet "[]" None ?u ?md "[137, 80]"
      "Exn (py ''upload failed'')" scenario_env "[]" ?emb]
  note r1 = mp[OF t1 h]
  have s: "get_user_tweets scenario_env = Inr (scenario_tweet # []) \<and>
      fst (build_embed scenario_env (fix_utm_source (first_url scenario_tweet))) = Inr ?emb"
    by (simp add: env_tweets env_embed)
  have p1: "fst (loop_iteration upload_fails_env None) = None"
    using r1 by (rule conjunct1)
  have p2: "publish_calls (snd (loop_iteration upload_fails_env None)) = []"
    using r1[THEN conjunct2] by (rule conjunct1)
  have p3: "publish_calls (snd (run_loop [upload_fails_env, scenario_env] None)) =
      [(sanitize (tw_text scenario_tweet), ?emb)]"
    using r1[THEN conjunct2, THEN conjunct2, THEN conjunct2, THEN conjunct2, THEN conjunct1] s
    by (rule mp)
  note t2 = upload_failure_skips_cycle[of upload_fails_env scenario_tweet "[]" None ?u ?md "[137, 80]"
      "Exn (py ''upload failed'')" other_env "[scenario_tweet]" _ other_tweet]
  note r2 = mp[OF t2 h]
  have o: "get_user_tweets other_env = Inr (other_tweet # [scenario_tweet]) \<and>
      tw_id other_tweet \<noteq> tw_id scenario_tweet"
    by (simp add: other_env_def other_tweet_def scenario_tweet_def py_def)
  have all: "\<forall>c\<in>set (publish_calls (snd (run_loop [upload_fails_env, other_env] None))).
      fst c = sanitize (tw_text other_tweet)"
    using r2[THEN conjunct2, THEN conjunct2, THEN conjunct2, THEN conjunct2, THEN conjunct2] o
    by (rule mp)
  have e: "publish_calls (snd (run_loop [upload_fails_env, other_env] None)) =
      [(sanitize (tw_text other_tweet), None)]"
    by (simp add: split_beta upload_fails_iteration publish_calls_simps other_iteration)
  then have p4: "publish_calls (snd (run_loop [upload_fails_env, other_env] None)) \<noteq> []" by simp
  with all have p5: "fst (hd (publish_calls (snd (run_loop [upload_fails_env, other_env] None)))) =
      sanitize (tw_text other_tweet)" by simp
  from p1 p2 p3 p4 p5 show ?thesis by (intro conjI)
qed

section \<open>Several relays\<close>

lemma start_results:
  "monitor_tweets login_fails_start envs =
     Returned [Print LoggedInTwitter, Print (LoginFailed (Exn (py ''Invalid identifier or password'')))]"
  "monitor_tweets not_found_start envs =
     Returned [Print LoggedInTwitter, Print LoggedInBluesky, Print UserNotFound]"
  "monitor_tweets lookup_raises_start envs =
     Raised (Exn (py ''The user does not exist.'')) [Print LoggedInTwitter, Print LoggedInBluesky]"
  by (simp_all add: monitor_tweets_def login_def login_fails_start_def not_found_start_def
      lookup_raises_start_def ok_start_def)

lemma ok_start_result:
  "monitor_tweets ok_start [scenario_env] =
     Looping (Some (tw_id scenario_tweet))
       ([Print LoggedInTwitter, Print LoggedInBluesky, Print (Monitoring (py ''42''))] @
        snd (loop_iteration scenario_env None))"
  by (simp add: monitor_tweets_def login_def ok_start_def scenario_iteration)

text \<open>
  Claim C9 asks that a relay that fails to start ends alone. That holds when a login
  raises and when the user is not found (the relay returns, the other goes on). It
  fails when \<open>get_user_by_screen_name\<close> raises: line 90 stands outside every \<open>try\<close>,
  the exception leaves \<open>monitor_tweets\<close>, \<open>gather\<close> raises it in \<open>main\<close>, and the
  process ends with it, the second relay included, which by itself would have posted.
\<close>

theorem lookup_exception_ends_all_relays:
  "main [(lookup_raises_start, []), (ok_start, [scenario_env])] = Inl (Exn (py ''The user does not exist.'')) \<and>
   main [(login_fails_start, []), (ok_start, [scenario_env])] =
     Inr [Returned [Print LoggedInTwitter, Print (LoginFailed (Exn (py ''Invalid identifier or password'')))],
          monitor_tweets ok_start [scenario_env]] \<and>
   main [(not_found_start, []), (ok_start, [scenario_env])] =
     Inr [Returned [Print LoggedInTwitter, Print LoggedInBluesky, Print UserNotFound],
          monitor_tweets ok_start [scenario_env]] \<and>
   posted_count (snd (loop_iteration scenario_env None)) = 1"
  by (simp add: main_def start_results ok_start_result scenario_iteration posted_count_simps)

end
